theory Spec2Isabelle
  imports Main "HOL-Library.Multiset"
begin

section \<open>JavaScript strings\<close>

text \<open>
  A JavaScript string is modelled as a \<open>string\<close> (a list of characters). The helpers
  below are the \<open>String.prototype\<close> methods the services call.
\<close>

text \<open>\<open>s.split(c)\<close> for a one-character separator: never the empty list.\<close>

fun split :: "char \<Rightarrow> string \<Rightarrow> string list" where
  "split c [] = [[]]"
| "split c (x # xs) =
     (if x = c then [] # split c xs
      else (case split c xs of [] \<Rightarrow> [[x]] | y # ys \<Rightarrow> (x # y) # ys))"

text \<open>\<open>s.startsWith(p)\<close> and \<open>s.substring(n)\<close>.\<close>

definition startsWith :: "string \<Rightarrow> string \<Rightarrow> bool" where
  "startsWith s p = (take (length p) s = p)"

definition substring :: "string \<Rightarrow> nat \<Rightarrow> string" where
  "substring s n = drop n s"

text \<open>
  \<open>s.trim()\<close> removes white space and line terminators at both ends. The model knows
  the ASCII ones: tab, line feed, vertical tab, form feed, carriage return and space.
\<close>

definition isWhiteSpace :: "char \<Rightarrow> bool" where
  "isWhiteSpace c = (c \<in> set [CHR 0x09, CHR 0x0A, CHR 0x0B, CHR 0x0C, CHR 0x0D, CHR '' ''])"

definition trim :: "string \<Rightarrow> string" where
  "trim s = rev (dropWhile isWhiteSpace (rev (dropWhile isWhiteSpace s)))"

text \<open>Truthiness of a string: every string but the empty one.\<close>

definition truthy :: "string \<Rightarrow> bool" where
  "truthy s = (s \<noteq> [])"

section \<open>Data model (types/index.ts)\<close>

text \<open>
  \<open>WorktreeInfo\<close>. The parser casts a partial object to this type, so \<open>branch\<close> and
  \<open>commit\<close> may be undefined at run time: they are options. \<open>changes\<close> is optional in
  the interface; \<open>activeCLIs\<close> is the field the tree view adds.
\<close>

record WorktreeInfo =
  path :: string
  branch :: "string option"
  commit :: "string option"
  isMain :: bool
  isLocked :: bool
  changes :: "int option"
  activeCLIs :: "string list option"

text \<open>\<open>Partial<WorktreeInfo>\<close>, the parser's accumulator: every field may be absent.\<close>

record PartialWorktree =
  p_path :: "string option"
  p_branch :: "string option"
  p_commit :: "string option"
  p_isMain :: "bool option"
  p_isLocked :: "bool option"

definition emptyPartial :: PartialWorktree where
  "emptyPartial =
     \<lparr>p_path = None, p_branch = None, p_commit = None, p_isMain = None, p_isLocked = None\<rparr>"

text \<open>
  \<open>currentWorktree as WorktreeInfo\<close>: the cast of an accumulator whose path is set.
  An absent flag reads as false, as an undefined value does in a condition.
\<close>

definition asWorktreeInfo :: "PartialWorktree \<Rightarrow> WorktreeInfo" where
  "asWorktreeInfo p =
     \<lparr>path = (case p_path p of None \<Rightarrow> [] | Some s \<Rightarrow> s),
      branch = p_branch p, commit = p_commit p,
      isMain = (p_isMain p = Some True), isLocked = (p_isLocked p = Some True),
      changes = None, activeCLIs = None\<rparr>"

section \<open>GitService.parseWorktreeList\<close>

text \<open>\<open>if (currentWorktree.path)\<close>: the path is present and not the empty string.\<close>

definition hasPath :: "PartialWorktree \<Rightarrow> bool" where
  "hasPath p = (case p_path p of None \<Rightarrow> False | Some s \<Rightarrow> truthy s)"

text \<open>One iteration of the loop over the lines: the accumulator and the output so far.\<close>

definition parseLine ::
  "string \<Rightarrow> PartialWorktree \<times> WorktreeInfo list \<Rightarrow> PartialWorktree \<times> WorktreeInfo list" where
  "parseLine line st =
     (case st of (currentWorktree, worktrees) \<Rightarrow>
        if startsWith line ''worktree '' then
          ((emptyPartial\<lparr>p_path := Some (substring line 9),
                          p_isMain := Some False, p_isLocked := Some False\<rparr>),
           (if hasPath currentWorktree then worktrees @ [asWorktreeInfo currentWorktree]
            else worktrees))
        else if startsWith line ''HEAD '' then
          (currentWorktree\<lparr>p_commit := Some (substring line 5)\<rparr>, worktrees)
        else if startsWith line ''branch '' then
          (currentWorktree\<lparr>p_branch := Some (substring line 7)\<rparr>, worktrees)
        else if line = ''bare'' then
          (currentWorktree\<lparr>p_isMain := Some True\<rparr>, worktrees)
        else if startsWith line ''locked'' then
          (currentWorktree\<lparr>p_isLocked := Some True\<rparr>, worktrees)
        else (currentWorktree, worktrees))"

definition parseWorktreeList :: "string \<Rightarrow> WorktreeInfo list" where
  "parseWorktreeList output =
     (let lines = filter (\<lambda>line. truthy (trim line)) (split CHR 0x0A output);
          (currentWorktree, worktrees) = fold parseLine lines (emptyPartial, [])
      in if hasPath currentWorktree then worktrees @ [asWorktreeInfo currentWorktree]
         else worktrees)"


subsection \<open>The block reading of the porcelain listing\<close>

text \<open>
  The specification describes the listing as blocks: a \<open>worktree <path>\<close> line followed
  by its attribute lines up to the next \<open>worktree\<close> line. The definitions of this
  subsection follow that description (they are not taken from the code) and are compared
  with \<open>parseWorktreeList\<close> below.
\<close>

definition isWorktreeLine :: "string \<Rightarrow> bool" where
  "isWorktreeLine l = startsWith l ''worktree ''"

text \<open>The text after \<open>key\<close> on the last line of the block that starts with \<open>key\<close>.\<close>

fun lastAttr :: "string \<Rightarrow> string list \<Rightarrow> string option" where
  "lastAttr key [] = None"
| "lastAttr key (l # ls) =
     (case lastAttr key ls of
        Some v \<Rightarrow> Some v
      | None \<Rightarrow> if startsWith l key then Some (drop (length key) l) else None)"

text \<open>The record of one block: its \<open>worktree\<close> line and its attribute lines.\<close>

definition blockRecord :: "string \<Rightarrow> string list \<Rightarrow> WorktreeInfo" where
  "blockRecord l attrs =
     \<lparr>path = drop 9 l,
      branch = lastAttr ''branch '' attrs,
      commit = lastAttr ''HEAD '' attrs,
      isMain = (''bare'' \<in> set attrs),
      isLocked = (\<exists>a \<in> set attrs. startsWith a ''locked''),
      changes = None, activeCLIs = None\<rparr>"

text \<open>
  One record per \<open>worktree\<close> line whose path is not empty, built from the lines between
  it and the next \<open>worktree\<close> line; lines before the first block belong to no record.
\<close>

fun blockRecords :: "string list \<Rightarrow> WorktreeInfo list" where
  "blockRecords [] = []"
| "blockRecords (l # ls) =
     (if isWorktreeLine l
      then (if drop 9 l \<noteq> []
            then [blockRecord l (takeWhile (\<lambda>a. \<not> isWorktreeLine a) ls)] else [])
           @ blockRecords ls
      else blockRecords ls)"

text \<open>The accumulator after the attribute lines \<open>attrs\<close> have been read into \<open>cur\<close>.\<close>

definition attrsApplied :: "string list \<Rightarrow> PartialWorktree \<Rightarrow> PartialWorktree" where
  "attrsApplied attrs cur =
     cur\<lparr>p_branch := (case lastAttr ''branch '' attrs of None \<Rightarrow> p_branch cur | Some v \<Rightarrow> Some v),
         p_commit := (case lastAttr ''HEAD '' attrs of None \<Rightarrow> p_commit cur | Some v \<Rightarrow> Some v),
         p_isMain := (if ''bare'' \<in> set attrs then Some True else p_isMain cur),
         p_isLocked :=
           (if \<exists>a \<in> set attrs. startsWith a ''locked'' then Some True else p_isLocked cur)\<rparr>"

definition attrStep :: "string \<Rightarrow> PartialWorktree \<Rightarrow> PartialWorktree" where
  "attrStep l cur = fst (parseLine l (cur, []))"

definition finish :: "PartialWorktree \<times> WorktreeInfo list \<Rightarrow> WorktreeInfo list" where
  "finish st = (case st of (cur, out) \<Rightarrow> if hasPath cur then out @ [asWorktreeInfo cur] else out)"

section \<open>Promises and effects\<close>

text \<open>
  A thrown value. The services read nothing of an error but its message
  (\<open>getErrorMessage\<close>), so an error is its message.
\<close>

datatype js_error = Error string | TypeError string

text \<open>
  How an awaited call ends: it returns, it throws, or its promise never settles
  (\<open>Pending\<close>: the operations impose no timeout on the external tool).
\<close>

datatype 'a completion = Returned 'a | Thrown js_error | Pending

text \<open>One invocation of the external tool through simple-git.\<close>

datatype GitCall =
    Raw "string list"
  | BranchLocal
  | Branch "string list"
  | Status string

text \<open>
  What the operations leave behind: the invocations of the external tool, the lines
  written with \<open>console.error\<close>, and the messages shown by
  \<open>showInformationMessage\<close> and \<open>showErrorMessage\<close>, oldest first.
\<close>

record World =
  git_calls :: "GitCall list"
  console_errors :: "string list"
  info_messages :: "string list"
  error_messages :: "string list"

type_synonym 'a io = "World \<Rightarrow> 'a completion \<times> World"

definition resolve :: "'a \<Rightarrow> 'a io" where
  "resolve x = (\<lambda>w. (Returned x, w))"

definition reject :: "js_error \<Rightarrow> 'a io" where
  "reject e = (\<lambda>w. (Thrown e, w))"

text \<open>\<open>const x = await m; f x\<close>: a throw or a promise that never settles ends the body.\<close>

definition await :: "'a io \<Rightarrow> ('a \<Rightarrow> 'b io) \<Rightarrow> 'b io" where
  "await m f = (\<lambda>w. case m w of
                      (Returned x, w') \<Rightarrow> f x w'
                    | (Thrown e, w') \<Rightarrow> (Thrown e, w')
                    | (Pending, w') \<Rightarrow> (Pending, w'))"

text \<open>\<open>try { m } catch (error) { h error }\<close>.\<close>

definition tryCatch :: "'a io \<Rightarrow> (js_error \<Rightarrow> 'a io) \<Rightarrow> 'a io" where
  "tryCatch m h = (\<lambda>w. case m w of
                         (Returned x, w') \<Rightarrow> (Returned x, w')
                       | (Thrown e, w') \<Rightarrow> h e w'
                       | (Pending, w') \<Rightarrow> (Pending, w'))"

definition consoleError :: "string \<Rightarrow> unit io" where
  "consoleError line = (\<lambda>w. (Returned (), w\<lparr>console_errors := console_errors w @ [line]\<rparr>))"

definition showInformationMessage :: "string \<Rightarrow> unit io" where
  "showInformationMessage m = (\<lambda>w. (Returned (), w\<lparr>info_messages := info_messages w @ [m]\<rparr>))"

definition showErrorMessage :: "string \<Rightarrow> unit io" where
  "showErrorMessage m = (\<lambda>w. (Returned (), w\<lparr>error_messages := error_messages w @ [m]\<rparr>))"

section \<open>The external tool (simple-git)\<close>

text \<open>
  The answers of the external tool, a parameter of every operation: \<open>Inl\<close> is the
  error a call rejects with, \<open>Inr\<close> its result. Every call is answered, and a call
  with the same arguments is answered the same way throughout one operation. \<open>git_branchLocal\<close> and
  \<open>git_branch\<close> give the \<open>all\<close> list of the branch summary, \<open>git_status\<close> the
  \<open>files\<close> list of the status of the worktree at a path.
\<close>

record SimpleGit =
  git_raw :: "string list \<Rightarrow> js_error + string"
  git_branchLocal :: "js_error + string list"
  git_branch :: "string list \<Rightarrow> js_error + string list"
  git_status :: "string \<Rightarrow> js_error + string list"

definition settle :: "js_error + 'a \<Rightarrow> 'a completion" where
  "settle r = (case r of Inl e \<Rightarrow> Thrown e | Inr x \<Rightarrow> Returned x)"

definition callRaw :: "SimpleGit \<Rightarrow> string list \<Rightarrow> string io" where
  "callRaw git args = (\<lambda>w. (settle (git_raw git args), w\<lparr>git_calls := git_calls w @ [Raw args]\<rparr>))"

definition callBranchLocal :: "SimpleGit \<Rightarrow> string list io" where
  "callBranchLocal git =
     (\<lambda>w. (settle (git_branchLocal git), w\<lparr>git_calls := git_calls w @ [BranchLocal]\<rparr>))"

definition callBranch :: "SimpleGit \<Rightarrow> string list \<Rightarrow> string list io" where
  "callBranch git args =
     (\<lambda>w. (settle (git_branch git args), w\<lparr>git_calls := git_calls w @ [Branch args]\<rparr>))"

text \<open>
  \<open>simpleGit(worktreePath).status()\<close> in two steps, for the operations that run several
  of them at once: the call is issued, and later its promise settles.
\<close>

definition issueStatus :: "string \<Rightarrow> World \<Rightarrow> World" where
  "issueStatus worktreePath w = w\<lparr>git_calls := git_calls w @ [Status worktreePath]\<rparr>"

definition statusSettles :: "SimpleGit \<Rightarrow> string \<Rightarrow> string list io" where
  "statusSettles git worktreePath = (\<lambda>w. (settle (git_status git worktreePath), w))"

section \<open>GitService\<close>

text \<open>\<open>GitOperationResult\<close>; its \<open>output\<close> field is \<open>result_output\<close> here.\<close>

record GitOperationResult =
  success :: bool
  error :: "string option"
  result_output :: "string option"

definition getErrorMessage :: "js_error \<Rightarrow> string" where
  "getErrorMessage e = (case e of Error m \<Rightarrow> m | TypeError m \<Rightarrow> m)"

definition handleGitError :: "js_error \<Rightarrow> string \<Rightarrow> unit io" where
  "handleGitError e context = consoleError (context @ '': '' @ getErrorMessage e)"

definition listWorktrees :: "SimpleGit \<Rightarrow> WorktreeInfo list io" where
  "listWorktrees git =
     tryCatch
       (await (callRaw git [''worktree'', ''list'', ''--porcelain''])
          (\<lambda>result. resolve (parseWorktreeList result)))
       (\<lambda>e. await (handleGitError e ''Failed to list worktrees'') (\<lambda>_. resolve []))"

definition GitService_removeWorktree ::
  "SimpleGit \<Rightarrow> string \<Rightarrow> bool \<Rightarrow> GitOperationResult io" where
  "GitService_removeWorktree git worktreePath force =
     tryCatch
       (await (callRaw git ([''worktree'', ''remove''] @ (if force then [''--force''] else [])
                            @ [worktreePath]))
          (\<lambda>_. resolve \<lparr>success = True, error = None,
                         result_output = Some (''Worktree removed: '' @ worktreePath)\<rparr>))
       (\<lambda>e. resolve \<lparr>success = False, error = Some (getErrorMessage e), result_output = None\<rparr>)"

definition branchExists :: "SimpleGit \<Rightarrow> string \<Rightarrow> bool io" where
  "branchExists git branchName =
     tryCatch
       (await (callBranchLocal git) (\<lambda>branches. resolve (branchName \<in> set branches)))
       (\<lambda>e. await (handleGitError e ''Failed to check branch existence'') (\<lambda>_. resolve False))"

text \<open>\<open>[...new Set(xs)]\<close>: the first occurrence of every element, in order.\<close>

definition uniqueInOrder :: "'a list \<Rightarrow> 'a list" where
  "uniqueInOrder xs = rev (remdups (rev xs))"

definition getAllBranches :: "SimpleGit \<Rightarrow> string list io" where
  "getAllBranches git =
     tryCatch
       (await (callBranchLocal git) (\<lambda>localBranches.
        await (callBranch git [''-r'']) (\<lambda>remoteBranches.
        resolve (uniqueInOrder (localBranches @ map trim remoteBranches)))))
       (\<lambda>e. await (handleGitError e ''Failed to fetch branches'') (\<lambda>_. resolve []))"

text \<open>The body of \<open>getChangesCount\<close> from the point where the status call settles.\<close>

definition getChangesCount_settled :: "SimpleGit \<Rightarrow> string \<Rightarrow> int io" where
  "getChangesCount_settled git worktreePath =
     tryCatch
       (await (statusSettles git worktreePath) (\<lambda>files. resolve (int (length files))))
       (\<lambda>e. await (handleGitError e ''Failed to get changes count'') (\<lambda>_. resolve 0))"

definition getChangesCount :: "SimpleGit \<Rightarrow> string \<Rightarrow> int io" where
  "getChangesCount git worktreePath =
     (\<lambda>w. getChangesCount_settled git worktreePath (issueStatus worktreePath w))"

subsection \<open>compareVersions and validateGitVersion\<close>

text \<open>\<open>\d\<close> of a regular expression: the ten ASCII digits.\<close>

definition isDigit :: "char \<Rightarrow> bool" where
  "isDigit c = (48 \<le> (of_char c :: nat) \<and> (of_char c :: nat) \<le> 57)"

definition digitValue :: "char \<Rightarrow> nat" where
  "digitValue c = of_char c - 48"

definition decimalValue :: "string \<Rightarrow> nat" where
  "decimalValue s = foldl (\<lambda>n c. 10 * n + digitValue c) 0 s"

text \<open>
  The values \<open>compareVersions\<close> compares: the numbers \<open>Number\<close> makes of the parts of
  a version, and \<open>undefined\<close> for a part that is not there.

  \<open>Number(s)\<close> on a string: white space around \<open>s\<close> is dropped, the empty string is 0,
  a run of decimal digits is its value, text that is no number is \<open>NaN\<close>. Two limits of
  this model: JavaScript numbers are doubles, so a run of digits is read exactly only
  below \<open>2 ^ 53\<close>; and the other numeric forms JavaScript accepts (a sign, an exponent,
  a radix prefix, \<open>Infinity\<close>) read as \<open>NaN\<close> here. The properties of
  \<open>compareVersions\<close> below are stated for components that are runs of digits below
  \<open>2 ^ 53\<close>.
\<close>

datatype JSValue = Number int | NaN | Undefined

definition toNumber :: "string \<Rightarrow> JSValue" where
  "toNumber s =
     (let t = trim s
      in if t = [] then Number 0
         else if list_all isDigit t then Number (int (decimalValue t))
         else NaN)"

text \<open>\<open>parts[i]\<close>: \<open>undefined\<close> past the end of the array.\<close>

definition elementAt :: "JSValue list \<Rightarrow> nat \<Rightarrow> JSValue" where
  "elementAt xs i = (if i < length xs then xs ! i else Undefined)"

text \<open>\<open>a > b\<close> and \<open>a < b\<close>: false as soon as one side is \<open>NaN\<close> or \<open>undefined\<close>.\<close>

definition greaterThan :: "JSValue \<Rightarrow> JSValue \<Rightarrow> bool" where
  "greaterThan a b = (case (a, b) of (Number x, Number y) \<Rightarrow> x > y | _ \<Rightarrow> False)"

definition lessThan_js :: "JSValue \<Rightarrow> JSValue \<Rightarrow> bool" where
  "lessThan_js a b = (case (a, b) of (Number x, Number y) \<Rightarrow> x < y | _ \<Rightarrow> False)"

text \<open>The loop \<open>for (let i = 0; i < 3; i++)\<close>, over the indices still to visit.\<close>

fun compareLoop :: "JSValue list \<Rightarrow> JSValue list \<Rightarrow> nat list \<Rightarrow> int" where
  "compareLoop v1Parts v2Parts [] = 0"
| "compareLoop v1Parts v2Parts (i # is) =
     (if greaterThan (elementAt v1Parts i) (elementAt v2Parts i) then 1
      else if lessThan_js (elementAt v1Parts i) (elementAt v2Parts i) then -1
      else compareLoop v1Parts v2Parts is)"

definition compareVersions :: "string \<Rightarrow> string \<Rightarrow> int" where
  "compareVersions version1 version2 =
     (let v1Parts = map toNumber (split CHR ''.'' version1);
          v2Parts = map toNumber (split CHR ''.'' version2)
      in compareLoop v1Parts v2Parts [0, 1, 2])"

text \<open>
  \<open>versionResult.match(/git version (\d+\.\d+\.\d+)/)\<close>: the first position where the
  pattern matches, and there the group. Each \<open>\d+\<close> takes every digit it can: a shorter
  run would be followed by a digit, not by the dot the pattern wants next.
\<close>

definition matchTriple :: "string \<Rightarrow> string option" where
  "matchTriple s =
     (let major = takeWhile isDigit s; r1 = dropWhile isDigit s
      in if major = [] then None
         else (case r1 of
                 [] \<Rightarrow> None
               | c1 # s2 \<Rightarrow>
                   if c1 \<noteq> CHR ''.'' then None
                   else (let minor = takeWhile isDigit s2; r2 = dropWhile isDigit s2
                         in if minor = [] then None
                            else (case r2 of
                                    [] \<Rightarrow> None
                                  | c2 # s3 \<Rightarrow>
                                      if c2 \<noteq> CHR ''.'' then None
                                      else (let patch = takeWhile isDigit s3
                                            in if patch = [] then None
                                               else Some (major @ ''.'' @ minor @ ''.'' @ patch))))))"

definition matchHere :: "string \<Rightarrow> string option" where
  "matchHere s = (if startsWith s ''git version '' then matchTriple (drop 12 s) else None)"

fun matchGitVersion :: "string \<Rightarrow> string option" where
  "matchGitVersion [] = None"
| "matchGitVersion (c # s) =
     (case matchHere (c # s) of Some v \<Rightarrow> Some v | None \<Rightarrow> matchGitVersion s)"

definition validateGitVersion :: "SimpleGit \<Rightarrow> string \<Rightarrow> bool io" where
  "validateGitVersion git minVersion =
     tryCatch
       (await (callRaw git [''--version'']) (\<lambda>versionResult.
          case matchGitVersion versionResult of
            None \<Rightarrow> resolve False
          | Some currentVersion \<Rightarrow> resolve (compareVersions currentVersion minVersion \<ge> 0)))
       (\<lambda>e. await (handleGitError e ''Failed to validate Git version'') (\<lambda>_. resolve False))"


section \<open>TerminalTracker\<close>

text \<open>
  A \<open>vscode.Terminal\<close> is compared by identity only: a handle is a number.
  \<open>startTime\<close> is the clock's value when the terminal is tracked, a parameter of
  \<open>trackTerminal\<close>.
\<close>

type_synonym Terminal = nat

record TrackedTerminal =
  terminal :: Terminal
  cliName :: string
  worktreePath :: string
  startTime :: nat

text \<open>
  The tracker: its \<open>Map\<close> from worktree path to sessions, as the list of its entries in
  insertion order, and the payloads fired on \<open>onDidChangeTerminals\<close> so far, oldest first.
\<close>

record TerminalTracker =
  terminals :: "(string \<times> TrackedTerminal list) list"
  fired :: "string list"

definition newTerminalTracker :: TerminalTracker where
  "newTerminalTracker = \<lparr>terminals = [], fired = []\<rparr>"

text \<open>
  \<open>Map.prototype.get\<close>, \<open>set\<close> and \<open>delete\<close> on the list of entries: \<open>set\<close> replaces
  the value of a key in place and appends a new key at the end.
\<close>

definition mapGet :: "('k \<times> 'v) list \<Rightarrow> 'k \<Rightarrow> 'v option" where
  "mapGet m k = map_of m k"

fun mapSet :: "('k \<times> 'v) list \<Rightarrow> 'k \<Rightarrow> 'v \<Rightarrow> ('k \<times> 'v) list" where
  "mapSet [] k v = [(k, v)]"
| "mapSet ((k', v') # m) k v = (if k' = k then (k, v) # m else (k', v') # mapSet m k v)"

definition mapDelete :: "('k \<times> 'v) list \<Rightarrow> 'k \<Rightarrow> ('k \<times> 'v) list" where
  "mapDelete m k = filter (\<lambda>entry. fst entry \<noteq> k) m"

definition trackTerminal ::
  "Terminal \<Rightarrow> string \<Rightarrow> string \<Rightarrow> nat \<Rightarrow> TerminalTracker \<Rightarrow> TerminalTracker" where
  "trackTerminal t wpath cli now tr =
     (let tracked = \<lparr>terminal = t, cliName = cli, worktreePath = wpath, startTime = now\<rparr>;
          existing = (case mapGet (terminals tr) wpath of None \<Rightarrow> [] | Some ts \<Rightarrow> ts);
          existing' = existing @ [tracked]
      in tr\<lparr>terminals := mapSet (terminals tr) wpath existing',
            fired := fired tr @ [wpath]\<rparr>)"

text \<open>\<open>xs.findIndex(P)\<close>, -1 when no element satisfies \<open>P\<close>, and \<open>xs.splice(index, 1)\<close>.\<close>

fun findIndex :: "('a \<Rightarrow> bool) \<Rightarrow> 'a list \<Rightarrow> int" where
  "findIndex P [] = - 1"
| "findIndex P (x # xs) =
     (if P x then 0 else (let i = findIndex P xs in if i = - 1 then - 1 else i + 1))"

definition splice1 :: "'a list \<Rightarrow> int \<Rightarrow> 'a list" where
  "splice1 xs index = take (nat index) xs @ drop (nat index + 1) xs"

text \<open>
  \<open>removeTerminal\<close>: the loop over the entries of the map. The loop ends (\<open>break\<close>) at
  the first bucket that holds the terminal, so the entries it iterates are those of the
  map at the call.
\<close>

fun removeTerminalLoop ::
  "(string \<times> TrackedTerminal list) list \<Rightarrow> Terminal \<Rightarrow> TerminalTracker \<Rightarrow> TerminalTracker" where
  "removeTerminalLoop [] t tr = tr"
| "removeTerminalLoop ((wpath, ts) # entries) t tr =
     (let index = findIndex (\<lambda>x. terminal x = t) ts
      in if index \<noteq> - 1
         then (let ts' = splice1 ts index
               in tr\<lparr>terminals := (if length ts' = 0 then mapDelete (terminals tr) wpath
                                    else mapSet (terminals tr) wpath ts'),
                     fired := fired tr @ [wpath]\<rparr>)
         else removeTerminalLoop entries t tr)"

definition removeTerminal :: "Terminal \<Rightarrow> TerminalTracker \<Rightarrow> TerminalTracker" where
  "removeTerminal t tr = removeTerminalLoop (terminals tr) t tr"

definition getTerminals :: "TerminalTracker \<Rightarrow> string \<Rightarrow> TrackedTerminal list" where
  "getTerminals tr wpath = (case mapGet (terminals tr) wpath of None \<Rightarrow> [] | Some ts \<Rightarrow> ts)"

definition getActiveCLIs :: "TerminalTracker \<Rightarrow> string \<Rightarrow> string list" where
  "getActiveCLIs tr wpath = map cliName (getTerminals tr wpath)"

definition hasActiveCLIs :: "TerminalTracker \<Rightarrow> string \<Rightarrow> bool" where
  "hasActiveCLIs tr wpath = (length (getTerminals tr wpath) > 0)"

definition getAllActiveWorktrees :: "TerminalTracker \<Rightarrow> string list" where
  "getAllActiveWorktrees tr = map fst (terminals tr)"

text \<open>A sequence of calls on the tracker, run from left to right.\<close>

datatype TrackerCall = Track Terminal string string nat | Untrack Terminal

fun applyCall :: "TrackerCall \<Rightarrow> TerminalTracker \<Rightarrow> TerminalTracker" where
  "applyCall (Track t wpath cli now) tr = trackTerminal t wpath cli now tr"
| "applyCall (Untrack t) tr = removeTerminal t tr"

definition runCalls :: "TrackerCall list \<Rightarrow> TerminalTracker \<Rightarrow> TerminalTracker" where
  "runCalls calls tr = fold applyCall calls tr"


section \<open>Host\<close>

text \<open>
  \<open>path.basename\<close> for POSIX paths, the form in which git prints worktree paths:
  trailing slashes are dropped, then the text after the last slash is taken.
\<close>

definition dropTrailing :: "char \<Rightarrow> string \<Rightarrow> string" where
  "dropTrailing c s = rev (dropWhile (\<lambda>x. x = c) (rev s))"

definition basename :: "string \<Rightarrow> string" where
  "basename p = rev (takeWhile (\<lambda>x. x \<noteq> CHR ''/'') (rev (dropTrailing CHR ''/'' p)))"

text \<open>
  What the host answers, parameters of the operations: the button chosen in the modal
  warning for a given message (\<open>None\<close> when it is dismissed; asking is the question
  itself and leaves nothing in the world), whether
  \<open>workspace.fs.stat\<close> finds a path (\<open>Inl\<close> is the error it rejects with),
  \<open>path.join\<close>, which depends on the platform, and \<open>String.prototype.localeCompare\<close>,
  which depends on the locale.
\<close>

record Host =
  showWarningMessage :: "string \<Rightarrow> string option"
  fs_stat :: "string \<Rightarrow> js_error + unit"
  path_join :: "string list \<Rightarrow> string"
  localeCompare :: "string \<Rightarrow> string \<Rightarrow> int"

text \<open>A number inside a template literal: its decimal digits.\<close>

definition digitChar :: "nat \<Rightarrow> char" where
  "digitChar d = char_of (48 + d)"

function showNat :: "nat \<Rightarrow> string" where
  "showNat n = (if n < 10 then [digitChar n] else showNat (n div 10) @ [digitChar (n mod 10)])"
  by pat_completeness auto
termination
  by (relation "measure id") auto

definition showInt :: "int \<Rightarrow> string" where
  "showInt i = (if i < 0 then ''-'' @ showNat (nat (- i)) else showNat (nat i))"

section \<open>WorktreeManager\<close>

text \<open>\<open>WorktreeCreateOptions\<close>; each field carries the prefix \<open>opt_\<close> here.\<close>

record WorktreeCreateOptions =
  opt_name :: string
  opt_branch :: string
  opt_basePath :: string
  opt_createBranch :: bool
  opt_cliTools :: "string list"
  opt_openInNewWindow :: bool
  opt_autoStartTerminal :: bool

text \<open>The double quote inside a message.\<close>

definition dq :: string where
  "dq = [CHR 0x22]"

text \<open>\<open>worktree.changes && worktree.changes > 0\<close>, as a condition.\<close>

definition hasChanges :: "WorktreeInfo \<Rightarrow> bool" where
  "hasChanges worktree = (case changes worktree of None \<Rightarrow> False | Some n \<Rightarrow> n \<noteq> 0 \<and> n > 0)"

text \<open>The text of the confirmation prompt.\<close>

definition warningMessage :: "WorktreeInfo \<Rightarrow> string" where
  "warningMessage worktree =
     (let name = basename (path worktree)
      in if hasChanges worktree
         then ''Worktree '' @ dq @ name @ dq @ '' has ''
              @ (case changes worktree of None \<Rightarrow> ''undefined'' | Some n \<Rightarrow> showInt n)
              @ '' uncommitted change(s). Remove anyway?''
         else ''Remove worktree '' @ dq @ name @ dq @ ''?'')"

text \<open>\<open>result.error || 'Failed to remove worktree'\<close>: the default replaces an absent or
  empty text.\<close>

definition orDefault :: "string option \<Rightarrow> string \<Rightarrow> string" where
  "orDefault v d = (case v of None \<Rightarrow> d | Some s \<Rightarrow> if truthy s then s else d)"

text \<open>The check mark that opens the success message, as its UTF-8 bytes.\<close>

definition checkMark :: string where
  "checkMark = [CHR 0xE2, CHR 0x9C, CHR 0x93]"

text \<open>
  \<open>WorktreeManager.removeWorktree\<close>. \<open>withProgress\<close> runs its callback and passes on what
  its callback throws, so the callback's body stands in its place.
\<close>

definition removeWorktree :: "Host \<Rightarrow> SimpleGit \<Rightarrow> WorktreeInfo \<Rightarrow> bool io" where
  "removeWorktree host git worktree =
     tryCatch
       (let name = basename (path worktree);
            confirmation = showWarningMessage host (warningMessage worktree)
        in if confirmation \<noteq> Some ''Remove'' then resolve False
           else
             await (await (GitService_removeWorktree git (path worktree)
                             (if hasChanges worktree then True else False))
                      (\<lambda>result. if \<not> success result
                                then reject (Error (orDefault (error result)
                                                      ''Failed to remove worktree''))
                                else resolve ()))
               (\<lambda>_. await (showInformationMessage
                              (checkMark @ '' Worktree '' @ dq @ name @ dq @ '' removed''))
               (\<lambda>_. resolve True)))
       (\<lambda>e. await (showErrorMessage (''Failed to remove worktree: '' @ getErrorMessage e))
              (\<lambda>_. resolve False))"

text \<open>\<open>xs.map(f)\<close> for a callback that can throw: the first throw ends the map.\<close>

fun mapAwait :: "('a \<Rightarrow> 'b io) \<Rightarrow> 'a list \<Rightarrow> 'b list io" where
  "mapAwait f [] = resolve []"
| "mapAwait f (x # xs) = await (f x) (\<lambda>y. await (mapAwait f xs) (\<lambda>ys. resolve (y # ys)))"

text \<open>
  \<open>/^[a-zA-Z0-9-_]+$/.test(name)\<close>: the name is not empty and each of its characters is
  a letter, a digit, a hyphen or an underscore. Without the \<open>m\<close> flag \<open>$\<close> matches at
  the end of the text only.
\<close>

definition isNameChar :: "char \<Rightarrow> bool" where
  "isNameChar c =
     (let n = (of_char c :: nat)
      in (97 \<le> n \<and> n \<le> 122) \<or> (65 \<le> n \<and> n \<le> 90) \<or> (48 \<le> n \<and> n \<le> 57)
         \<or> c = CHR ''-'' \<or> c = CHR ''_'')"

definition nameMatches :: "string \<Rightarrow> bool" where
  "nameMatches s = (s \<noteq> [] \<and> list_all isNameChar s)"

text \<open>\<open>await vscode.workspace.fs.stat(uri)\<close>: returns when the path exists, throws when not.\<close>

definition stat :: "Host \<Rightarrow> string \<Rightarrow> unit io" where
  "stat host p = (\<lambda>w. (settle (fs_stat host p), w))"

text \<open>
  \<open>validateCreateOptions\<close>. \<open>errors0\<close>, \<open>errors1\<close> and \<open>errors2\<close> are the array
  \<open>errors\<close> at the start and after the first and the second check.
\<close>

definition validateCreateOptions ::
  "Host \<Rightarrow> SimpleGit \<Rightarrow> string \<Rightarrow> WorktreeCreateOptions \<Rightarrow> string list io" where
  "validateCreateOptions host git rootPath options =
     (let errors0 = [];
          errors1 = (if \<not> nameMatches (opt_name options)
                     then errors0 @ [''Worktree name must contain only letters, numbers, hyphens, and underscores'']
                     else errors0)
      in await (if \<not> opt_createBranch options
                then await (branchExists git (opt_branch options))
                       (\<lambda>exists. if \<not> exists
                                   then resolve (errors1 @ [''Branch '' @ dq @ opt_branch options
                                                           @ dq @ '' does not exist''])
                                   else resolve errors1)
                else resolve errors1)
          (\<lambda>errors2.
             let fullPath = path_join host [rootPath, opt_basePath options, opt_name options]
             in tryCatch
                  (await (stat host fullPath)
                     (\<lambda>_. resolve (errors2 @ [''Path already exists: '' @ fullPath])))
                  (\<lambda>_. resolve errors2)))"


text \<open>
  \<open>await Promise.all(xs.map(async (x) => ...))\<close>. Calling the callbacks issues their
  tool calls in the order of \<open>xs\<close> (\<open>start\<close>); the calls then finish in an order of
  their own, \<open>completionOrder\<close>, a list of indices into \<open>xs\<close>. When call \<open>i\<close>
  finishes, the rest of callback \<open>i\<close> runs (\<open>continuation\<close>) and its value goes to
  slot \<open>i\<close> of the result. The whole settles with the slots once every slot is
  filled, throws the first error a callback threw, and stays pending while a call has
  not finished.
\<close>

definition settleAt ::
  "('a \<Rightarrow> 'b io) \<Rightarrow> 'a list \<Rightarrow> nat \<Rightarrow>
   'b option list \<times> js_error option \<times> World \<Rightarrow> 'b option list \<times> js_error option \<times> World" where
  "settleAt continuation xs i st =
     (case st of (slots, rejected, w) \<Rightarrow>
        if i < length xs \<and> slots ! i = None
        then (case continuation (xs ! i) w of
                (Returned y, w') \<Rightarrow> (slots[i := Some y], rejected, w')
              | (Thrown e, w') \<Rightarrow>
                  (slots, (case rejected of None \<Rightarrow> Some e | Some e0 \<Rightarrow> Some e0), w')
              | (Pending, w') \<Rightarrow> (slots, rejected, w'))
        else (slots, rejected, w))"

definition promiseAll ::
  "('a \<Rightarrow> World \<Rightarrow> World) \<Rightarrow> ('a \<Rightarrow> 'b io) \<Rightarrow> 'a list \<Rightarrow> nat list \<Rightarrow> 'b list io" where
  "promiseAll start continuation xs completionOrder =
     (\<lambda>w. case fold (settleAt continuation xs) completionOrder
                    (replicate (length xs) None, None, fold start xs w) of
             (slots, rejected, w') \<Rightarrow>
               (case rejected of
                  Some e \<Rightarrow> (Thrown e, w')
                | None \<Rightarrow> if list_all (\<lambda>slot. slot \<noteq> None) slots
                          then (Returned (map the slots), w')
                          else (Pending, w')))"

text \<open>
  The callback of \<open>worktrees.map\<close> in \<open>getWorktrees\<close>, from the point where its
  status call settles: \<open>{ ...wt, changes }\<close>.
\<close>

definition withChanges :: "SimpleGit \<Rightarrow> WorktreeInfo \<Rightarrow> WorktreeInfo io" where
  "withChanges git wt =
     await (getChangesCount_settled git (path wt)) (\<lambda>n. resolve (wt\<lparr>changes := Some n\<rparr>))"

definition getWorktrees :: "SimpleGit \<Rightarrow> nat list \<Rightarrow> WorktreeInfo list io" where
  "getWorktrees git completionOrder =
     await (listWorktrees git) (\<lambda>worktrees.
     await (promiseAll (\<lambda>wt. issueStatus (path wt)) (withChanges git) worktrees completionOrder)
       (\<lambda>enriched. resolve enriched))"

section \<open>WorktreeProvider\<close>

text \<open>
  A \<open>WorktreeTreeItem\<close>: the record it shows, its label and its tooltip. Its
  description and icon are computed from the record after the tooltip and cannot throw;
  they are left out.
\<close>

record WorktreeTreeItem =
  worktree :: WorktreeInfo
  label :: string
  tooltip :: string

text \<open>\<open>xs.join(sep)\<close>.\<close>

fun joinWith :: "string \<Rightarrow> string list \<Rightarrow> string" where
  "joinWith sep [] = []"
| "joinWith sep [x] = x"
| "joinWith sep (x # y # ys) = x @ sep @ joinWith sep (y # ys)"

text \<open>The warning sign of the lock line, as its UTF-8 bytes.\<close>

definition warningSign :: string where
  "warningSign = [CHR 0xE2, CHR 0x9A, CHR 0xA0, CHR 0xEF, CHR 0xB8, CHR 0x8F]"

text \<open>
  \<open>buildTooltip\<close>. Its third line reads \<open>this.worktree.commit.substring(0, 7)\<close>: when
  the commit is undefined this throws a \<open>TypeError\<close>. An undefined branch prints as
  \<open>undefined\<close>.
\<close>

definition buildTooltip :: "WorktreeInfo \<Rightarrow> string completion" where
  "buildTooltip wt =
     (case commit wt of
        None \<Rightarrow> Thrown (TypeError ''Cannot read properties of undefined (reading 'substring')'')
      | Some c \<Rightarrow>
          Returned (joinWith [CHR 0x0A]
            ([''Path: '' @ path wt,
              ''Branch: '' @ (case branch wt of None \<Rightarrow> ''undefined'' | Some b \<Rightarrow> b),
              ''Commit: '' @ take 7 c]
             @ (case changes wt of None \<Rightarrow> [] | Some n \<Rightarrow> [''Changes: '' @ showInt n @ '' file(s)''])
             @ (case activeCLIs wt of
                  None \<Rightarrow> []
                | Some clis \<Rightarrow> if length clis > 0 then [''Running: '' @ joinWith '', '' clis] else [])
             @ (if isMain wt then [''(Main worktree)''] else [])
             @ (if isLocked wt then [warningSign @ '' Locked''] else []))))"

text \<open>\<open>new WorktreeTreeItem(wt, ...)\<close>: the constructor throws what \<open>buildTooltip\<close> throws.\<close>

definition newWorktreeTreeItem :: "WorktreeInfo \<Rightarrow> WorktreeTreeItem io" where
  "newWorktreeTreeItem wt =
     (\<lambda>w. case buildTooltip wt of
             Returned t \<Rightarrow> (Returned \<lparr>worktree = wt, label = basename (path wt), tooltip = t\<rparr>, w)
           | Thrown e \<Rightarrow> (Thrown e, w)
           | Pending \<Rightarrow> (Pending, w))"

text \<open>The comparator given to \<open>sort\<close>: main first, then by name.\<close>

definition compareWorktrees :: "Host \<Rightarrow> WorktreeInfo \<Rightarrow> WorktreeInfo \<Rightarrow> int" where
  "compareWorktrees host a b =
     (if isMain a then - 1
      else if isMain b then 1
      else localeCompare host (basename (path a)) (basename (path b)))"

text \<open>
  \<open>Array.prototype.sort\<close> with a comparator, as a stable insertion sort. JavaScript
  fixes the result of \<open>sort\<close> for a consistent comparator only, and leaves it to the
  implementation otherwise. \<open>compareWorktrees\<close> orders every two distinct records
  consistently when at most one record is main and \<open>localeCompare\<close> is a total
  preorder; a stable sort that compares distinct elements only then has this result.
\<close>

fun insertBy :: "('a \<Rightarrow> 'a \<Rightarrow> int) \<Rightarrow> 'a \<Rightarrow> 'a list \<Rightarrow> 'a list" where
  "insertBy cmp x [] = [x]"
| "insertBy cmp x (y # ys) = (if cmp x y \<le> 0 then x # y # ys else y # insertBy cmp x ys)"

definition arraySort :: "('a \<Rightarrow> 'a \<Rightarrow> int) \<Rightarrow> 'a list \<Rightarrow> 'a list" where
  "arraySort cmp xs = foldr (insertBy cmp) xs []"

text \<open>An error inside a template literal: its name, a colon, its message.\<close>

definition errorToString :: "js_error \<Rightarrow> string" where
  "errorToString e = (case e of Error m \<Rightarrow> ''Error: '' @ m | TypeError m \<Rightarrow> ''TypeError: '' @ m)"

text \<open>
  The callback of \<open>worktrees.map\<close> in \<open>getChildren\<close>, from the point where its
  status call settles: \<open>{ ...wt, changes, activeCLIs }\<close>.
\<close>

definition withChangesAndCLIs ::
  "SimpleGit \<Rightarrow> TerminalTracker \<Rightarrow> WorktreeInfo \<Rightarrow> WorktreeInfo io" where
  "withChangesAndCLIs git tracker wt =
     await (getChangesCount_settled git (path wt))
       (\<lambda>n. resolve (wt\<lparr>changes := Some n,
                         activeCLIs := Some (getActiveCLIs tracker (path wt))\<rparr>))"

text \<open>
  \<open>WorktreeProvider.getChildren\<close>. The tracker does not change during the call.
\<close>

definition getChildren ::
  "Host \<Rightarrow> SimpleGit \<Rightarrow> TerminalTracker \<Rightarrow> WorktreeTreeItem option \<Rightarrow> nat list \<Rightarrow>
   WorktreeTreeItem list io" where
  "getChildren host git tracker element completionOrder =
     (case element of
        Some _ \<Rightarrow> resolve []
      | None \<Rightarrow>
          tryCatch
            (await (listWorktrees git) (\<lambda>worktrees.
             await (promiseAll (\<lambda>wt. issueStatus (path wt))
                      (withChangesAndCLIs git tracker) worktrees completionOrder)
               (\<lambda>enrichedWorktrees.
                  mapAwait newWorktreeTreeItem
                    (arraySort (compareWorktrees host) enrichedWorktrees))))
            (\<lambda>e. await (showErrorMessage (''Failed to load worktrees: '' @ errorToString e))
                   (\<lambda>_. resolve [])))"


section \<open>Example inputs\<close>

text \<open>
  A repository with a main worktree and a feature worktree with three changed files, a
  tool that answers, a tool that fails every call, and a host whose confirmation prompt
  gives a fixed answer. \<open>codeUnitCompare\<close> stands for \<open>localeCompare\<close> in the
  examples.
\<close>

definition emptyWorld :: World where
  "emptyWorld = \<lparr>git_calls = [], console_errors = [], info_messages = [], error_messages = []\<rparr>"

definition healthyGit :: SimpleGit where
  "healthyGit =
     \<lparr>git_raw = (\<lambda>args.
         if args = [''worktree'', ''list'', ''--porcelain'']
         then Inr ''worktree /repo\<newline>HEAD 1111111111\<newline>branch refs/heads/main\<newline>\<newline>worktree /repo-feature\<newline>HEAD 2222222222\<newline>branch refs/heads/feature\<newline>''
         else if args = [''--version''] then Inr ''git version 2.39.2\<newline>''
         else Inr []),
      git_branchLocal = Inr [''main'', ''feature''],
      git_branch = (\<lambda>args. Inr [''origin/main'', ''origin/release'']),
      git_status = (\<lambda>p. if p = ''/repo-feature'' then Inr [''a.ts'', ''b.ts'', ''c.ts''] else Inr [])\<rparr>"

definition brokenGit :: SimpleGit where
  "brokenGit =
     \<lparr>git_raw = (\<lambda>args. Inl (Error ''spawn git ENOENT'')),
      git_branchLocal = Inl (Error ''spawn git ENOENT''),
      git_branch = (\<lambda>args. Inl (Error ''spawn git ENOENT'')),
      git_status = (\<lambda>p. Inl (Error ''spawn git ENOENT''))\<rparr>"

fun codeUnitCompare :: "string \<Rightarrow> string \<Rightarrow> int" where
  "codeUnitCompare [] [] = 0"
| "codeUnitCompare [] (y # ys) = - 1"
| "codeUnitCompare (x # xs) [] = 1"
| "codeUnitCompare (x # xs) (y # ys) =
     (if (of_char x :: nat) < of_char y then - 1
      else if (of_char y :: nat) < of_char x then 1
      else codeUnitCompare xs ys)"

definition answeringHost :: "string option \<Rightarrow> Host" where
  "answeringHost answer =
     \<lparr>showWarningMessage = (\<lambda>message. answer),
      fs_stat = (\<lambda>p. if p = ''/repo/../repo-feature'' then Inr () else Inl (Error ''ENOENT'')),
      path_join = joinWith ''/'',
      localeCompare = codeUnitCompare\<rparr>"

definition featureWorktree :: WorktreeInfo where
  "featureWorktree =
     \<lparr>path = ''/repo-feature'', branch = Some ''refs/heads/feature'',
      commit = Some ''2222222222'', isMain = False, isLocked = False,
      changes = Some 3, activeCLIs = None\<rparr>"

section \<open>What validation reports\<close>

text \<open>
  The three messages of \<open>validateCreateOptions\<close>, and the two facts about the
  environment its checks read: whether the tool lists a branch among the local ones, and
  whether \<open>stat\<close> finds the path.
\<close>

definition nameError :: string where
  "nameError = ''Worktree name must contain only letters, numbers, hyphens, and underscores''"

definition branchError :: "string \<Rightarrow> string" where
  "branchError b = ''Branch '' @ dq @ b @ dq @ '' does not exist''"

definition pathError :: "string \<Rightarrow> string" where
  "pathError fullPath = ''Path already exists: '' @ fullPath"

definition localBranch :: "SimpleGit \<Rightarrow> string \<Rightarrow> bool" where
  "localBranch git b = (case git_branchLocal git of Inl e \<Rightarrow> False | Inr branches \<Rightarrow> b \<in> set branches)"

definition pathExists :: "Host \<Rightarrow> string \<Rightarrow> bool" where
  "pathExists host p = (case fs_stat host p of Inl e \<Rightarrow> False | Inr u \<Rightarrow> True)"

definition featAuthOptions :: WorktreeCreateOptions where
  "featAuthOptions =
     \<lparr>opt_name = ''feat auth'', opt_branch = ''release'', opt_basePath = ''..'',
      opt_createBranch = False, opt_cliTools = [], opt_openInNewWindow = False,
      opt_autoStartTerminal = False\<rparr>"

section \<open>What enrichment reads\<close>

text \<open>
  The records the tool's listing parses to (none when the listing fails), and the number
  of entries in the status of a worktree (0 when the status call fails).
\<close>

definition listed :: "SimpleGit \<Rightarrow> WorktreeInfo list" where
  "listed git =
     (case git_raw git [''worktree'', ''list'', ''--porcelain''] of
        Inl e \<Rightarrow> []
      | Inr result \<Rightarrow> parseWorktreeList result)"

definition statusCount :: "SimpleGit \<Rightarrow> string \<Rightarrow> int" where
  "statusCount git p = (case git_status git p of Inl e \<Rightarrow> 0 | Inr files \<Rightarrow> int (length files))"

section \<open>What the registry holds\<close>

text \<open>
  Notions for stating the registry's properties: a bucket holds a handle; a handle is
  tracked when some bucket holds it; the first bucket, in the order of the map, that holds
  it; a list without the first element that satisfies a test. A JavaScript \<open>Map\<close> has
  each key once: \<open>wellFormed\<close>.
\<close>

definition holds :: "Terminal \<Rightarrow> TrackedTerminal list \<Rightarrow> bool" where
  "holds t ts = (\<exists>x \<in> set ts. terminal x = t)"

definition isTracked :: "TerminalTracker \<Rightarrow> Terminal \<Rightarrow> bool" where
  "isTracked tr t = (\<exists>entry \<in> set (terminals tr). holds t (snd entry))"

definition firstBucketWith :: "TerminalTracker \<Rightarrow> Terminal \<Rightarrow> string option" where
  "firstBucketWith tr t = map_option fst (find (\<lambda>entry. holds t (snd entry)) (terminals tr))"

definition wellFormed :: "TerminalTracker \<Rightarrow> bool" where
  "wellFormed tr = distinct (map fst (terminals tr))"

definition noEmptyBucket :: "TerminalTracker \<Rightarrow> bool" where
  "noEmptyBucket tr = (\<forall>entry \<in> set (terminals tr). snd entry \<noteq> [])"

definition exampleTracker :: TerminalTracker where
  "exampleTracker =
     runCalls [Track 1 ''/repo-feature'' ''claude'' 0, Track 2 ''/repo'' ''aider'' 1,
               Track 3 ''/repo-feature'' ''gemini'' 2] newTerminalTracker"

fun removeFirst :: "('a \<Rightarrow> bool) \<Rightarrow> 'a list \<Rightarrow> 'a list" where
  "removeFirst P [] = []"
| "removeFirst P (x # xs) = (if P x then xs else x # removeFirst P xs)"

section \<open>What the version check compares\<close>

text \<open>
  The comparison the specification describes: component by component from the left, the
  first difference decides. A version triple is three non-empty runs of decimal digits
  separated by dots; the banner contains a version when the text \<open>git version \<close> is
  followed by a triple. Every integer below \<open>2 ^ 53\<close> is a double, so the numbers of such
  components are exact.
\<close>

fun ordinalCompare :: "nat list \<Rightarrow> nat list \<Rightarrow> int" where
  "ordinalCompare (x # xs) (y # ys) =
     (if x > y then 1 else if x < y then - 1 else ordinalCompare xs ys)"
| "ordinalCompare xs ys = 0"

definition safeInteger :: "nat \<Rightarrow> bool" where
  "safeInteger n = (n < 2 ^ 53)"

definition isVersionTriple :: "string \<Rightarrow> bool" where
  "isVersionTriple v =
     (\<exists>a b c. v = a @ ''.'' @ b @ ''.'' @ c \<and> a \<noteq> [] \<and> b \<noteq> [] \<and> c \<noteq> [] \<and>
              list_all isDigit a \<and> list_all isDigit b \<and> list_all isDigit c)"

definition containsGitVersion :: "string \<Rightarrow> bool" where
  "containsGitVersion banner =
     (\<exists>pre v post. banner = pre @ ''git version '' @ v @ post \<and> isVersionTriple v)"

section \<open>What the tree view shows\<close>

text \<open>
  The listing git prints for a bare repository with one linked worktree: the entry of the
  repository itself has the line \<open>bare\<close> and no \<open>HEAD\<close> line. \<open>enriched\<close> is the
  record the tree view builds for a listed worktree, \<open>itemOf\<close> the tree item of a record
  whose tooltip can be built, and \<open>totalPreorder\<close> what a comparator must satisfy for
  \<open>sort\<close> to have one result.
\<close>

definition bareGit :: SimpleGit where
  "bareGit =
     healthyGit\<lparr>git_raw := (\<lambda>args.
        if args = [''worktree'', ''list'', ''--porcelain'']
        then Inr ''worktree /repo\<newline>bare\<newline>\<newline>worktree /repo-feature\<newline>HEAD 2222222222\<newline>branch refs/heads/feature\<newline>''
        else Inr [])\<rparr>"

definition enriched :: "SimpleGit \<Rightarrow> TerminalTracker \<Rightarrow> WorktreeInfo \<Rightarrow> WorktreeInfo" where
  "enriched git tracker wt =
     wt\<lparr>changes := Some (statusCount git (path wt)),
        activeCLIs := Some (getActiveCLIs tracker (path wt))\<rparr>"

definition totalPreorder :: "('a \<Rightarrow> 'a \<Rightarrow> int) \<Rightarrow> bool" where
  "totalPreorder cmp =
     ((\<forall>a b. cmp a b \<le> 0 \<or> cmp b a \<le> 0) \<and>
      (\<forall>a b c. cmp a b \<le> 0 \<and> cmp b c \<le> 0 \<longrightarrow> cmp a c \<le> 0))"

definition itemOf :: "WorktreeInfo \<Rightarrow> WorktreeTreeItem" where
  "itemOf wt =
     \<lparr>worktree = wt, label = basename (path wt),
      tooltip = (case buildTooltip wt of Returned t \<Rightarrow> t | _ \<Rightarrow> [])\<rparr>"

section \<open>What removal is asked of\<close>

text \<open>
  The bare repository again, with a tool that refuses to remove the repository's own
  entry, forced or not, as git does, and the record \<open>getWorktrees\<close> returns for that
  entry: \<open>isMain\<close> is set, branch and commit are absent, and nothing has changed.
\<close>

definition refusingGit :: SimpleGit where
  "refusingGit =
     bareGit\<lparr>git_raw := (\<lambda>args.
        if args = [''worktree'', ''remove'', ''/repo'']
           \<or> args = [''worktree'', ''remove'', ''--force'', ''/repo'']
        then Inl (Error ''fatal: '/repo' is a main working tree'')
        else git_raw bareGit args)\<rparr>"

definition bareRepository :: WorktreeInfo where
  "bareRepository =
     \<lparr>path = ''/repo'', branch = None, commit = None, isMain = True, isLocked = False,
      changes = Some 0, activeCLIs = None\<rparr>"

section \<open>Properties of the parser\<close>

lemma startsWith_Cons:
  "startsWith l (c # p) \<longleftrightarrow> (\<exists>t. l = c # t \<and> startsWith t p)"
  by (cases l) (auto simp: startsWith_def)

lemma lastAttr_HEAD:
  "lastAttr ''HEAD '' (l # ls) =
     (case lastAttr ''HEAD '' ls of Some v \<Rightarrow> Some v
      | None \<Rightarrow> if startsWith l ''HEAD '' then Some (substring l 5) else None)"
  by (simp add: substring_def eval_nat_numeral split: option.splits)

lemma lastAttr_branch:
  "lastAttr ''branch '' (l # ls) =
     (case lastAttr ''branch '' ls of Some v \<Rightarrow> Some v
      | None \<Rightarrow> if startsWith l ''branch '' then Some (substring l 7) else None)"
  by (simp add: substring_def eval_nat_numeral split: option.splits)

lemma attrStep_HEAD:
  "startsWith l ''HEAD '' \<Longrightarrow> attrStep l cur = cur\<lparr>p_commit := Some (substring l 5)\<rparr>"
  by (auto simp: attrStep_def parseLine_def startsWith_Cons)

lemma attrStep_branch:
  "startsWith l ''branch '' \<Longrightarrow> attrStep l cur = cur\<lparr>p_branch := Some (substring l 7)\<rparr>"
  by (auto simp: attrStep_def parseLine_def startsWith_Cons)

lemma attrStep_bare: "attrStep ''bare'' cur = cur\<lparr>p_isMain := Some True\<rparr>"
  by (simp add: attrStep_def parseLine_def startsWith_def)

lemma attrStep_locked:
  "startsWith l ''locked'' \<Longrightarrow> attrStep l cur = cur\<lparr>p_isLocked := Some True\<rparr>"
  by (auto simp: attrStep_def parseLine_def startsWith_Cons)

lemma attrStep_other:
  "\<not> startsWith l ''worktree '' \<Longrightarrow> \<not> startsWith l ''HEAD '' \<Longrightarrow>
   \<not> startsWith l ''branch '' \<Longrightarrow> l \<noteq> ''bare'' \<Longrightarrow> \<not> startsWith l ''locked'' \<Longrightarrow>
   attrStep l cur = cur"
  by (simp add: attrStep_def parseLine_def)

text \<open>The tests of the \<open>else if\<close> chain exclude one another.\<close>

lemma line_kinds:
  "startsWith l ''HEAD '' \<Longrightarrow>
     \<not> startsWith l ''branch '' \<and> ''bare'' \<noteq> l \<and> \<not> startsWith l ''locked''"
  "startsWith l ''branch '' \<Longrightarrow>
     \<not> startsWith l ''HEAD '' \<and> ''bare'' \<noteq> l \<and> \<not> startsWith l ''locked''"
  "startsWith l ''locked'' \<Longrightarrow>
     \<not> startsWith l ''HEAD '' \<and> ''bare'' \<noteq> l \<and> \<not> startsWith l ''branch ''"
  "\<not> startsWith ''bare'' ''locked'' \<and> \<not> startsWith ''bare'' ''HEAD '' \<and>
   \<not> startsWith ''bare'' ''branch ''"
  by (auto simp: startsWith_Cons)

lemma attrsApplied_Cons:
  assumes nw: "\<not> startsWith l ''worktree ''"
  shows "attrsApplied (l # attrs) cur = attrsApplied attrs (attrStep l cur)"
proof -
  consider (h) "startsWith l ''HEAD ''" | (b) "startsWith l ''branch ''"
    | (m) "l = ''bare''" | (k) "startsWith l ''locked''"
    | (n) "\<not> startsWith l ''HEAD ''" "\<not> startsWith l ''branch ''" "l \<noteq> ''bare''"
          "\<not> startsWith l ''locked''"
    by blast
  then show ?thesis
  proof cases
    case h
    with line_kinds(1)[OF h] show ?thesis
      by (simp add: attrsApplied_def attrStep_HEAD lastAttr_HEAD lastAttr_branch
          del: lastAttr.simps split: option.splits)
  next
    case b
    with line_kinds(2)[OF b] show ?thesis
      by (simp add: attrsApplied_def attrStep_branch lastAttr_HEAD lastAttr_branch
          del: lastAttr.simps split: option.splits)
  next
    case m
    show ?thesis unfolding m using line_kinds(4)
      by (simp add: attrsApplied_def attrStep_bare lastAttr_HEAD lastAttr_branch
          del: lastAttr.simps split: option.splits)
  next
    case k
    with line_kinds(3)[OF k] show ?thesis
      by (simp add: attrsApplied_def attrStep_locked lastAttr_HEAD lastAttr_branch
          del: lastAttr.simps split: option.splits)
  next
    case n
    then have "''bare'' \<noteq> l" by blast
    with n nw show ?thesis
      by (simp add: attrsApplied_def attrStep_other lastAttr_HEAD lastAttr_branch
          del: lastAttr.simps split: option.splits)
  qed
qed

lemma parseLine_attr:
  "\<not> startsWith l ''worktree '' \<Longrightarrow> parseLine l (cur, out) = (attrStep l cur, out)"
  by (simp add: parseLine_def attrStep_def)

lemma parseLine_worktree:
  "startsWith l ''worktree '' \<Longrightarrow>
   parseLine l (cur, out) =
     (emptyPartial\<lparr>p_path := Some (substring l 9), p_isMain := Some False,
                    p_isLocked := Some False\<rparr>,
      if hasPath cur then out @ [asWorktreeInfo cur] else out)"
  by (simp add: parseLine_def)

lemma hasPath_attrsApplied: "hasPath (attrsApplied attrs cur) = hasPath cur"
  by (simp add: hasPath_def attrsApplied_def)

lemma attrsApplied_Nil: "attrsApplied [] cur = cur"
  by (simp add: attrsApplied_def)

lemma asWorktreeInfo_block:
  "asWorktreeInfo (attrsApplied attrs
     (emptyPartial\<lparr>p_path := Some (substring l 9), p_isMain := Some False,
                    p_isLocked := Some False\<rparr>))
   = blockRecord l attrs"
  by (simp add: asWorktreeInfo_def attrsApplied_def blockRecord_def emptyPartial_def
      substring_def split: option.splits)

lemma hasPath_new:
  "hasPath (emptyPartial\<lparr>p_path := Some (substring l 9), p_isMain := Some False,
      p_isLocked := Some False\<rparr>) = (drop 9 l \<noteq> [])"
  by (simp add: hasPath_def truthy_def substring_def)

text \<open>
  The loop invariant: from any accumulator and output, the loop followed by the final
  flush appends the record of the accumulator (completed by the attribute lines that
  follow) and then the records of the remaining blocks.
\<close>

lemma finish_fold:
  "finish (fold parseLine ls (cur, out)) =
     out @ (if hasPath cur
            then [asWorktreeInfo (attrsApplied (takeWhile (\<lambda>a. \<not> isWorktreeLine a) ls) cur)]
            else [])
         @ blockRecords ls"
proof (induction ls arbitrary: cur out)
  case Nil
  show ?case by (simp add: finish_def attrsApplied_Nil)
next
  case (Cons l ls)
  show ?case
  proof (cases "startsWith l ''worktree ''")
    case True
    then show ?thesis
      by (simp add: parseLine_worktree Cons.IH isWorktreeLine_def attrsApplied_Nil
          asWorktreeInfo_block hasPath_new)
  next
    case False
    then show ?thesis
      by (simp add: parseLine_attr Cons.IH isWorktreeLine_def attrsApplied_Cons
          hasPath_attrsApplied[of "[l]", simplified attrsApplied_Cons[OF False] attrsApplied_Nil])
  qed
qed

text \<open>Lines that \<open>trim\<close> empties are blank, and no test of the loop recognises them.\<close>

lemma trim_empty: "trim s = [] \<longleftrightarrow> (\<forall>c \<in> set s. isWhiteSpace c)"
proof
  assume "trim s = []"
  then have a: "\<forall>c \<in> set (dropWhile isWhiteSpace s). isWhiteSpace c"
    by (simp add: trim_def dropWhile_eq_Nil_conv)
  have "dropWhile isWhiteSpace s = []"
  proof (rule ccontr)
    assume ne: "dropWhile isWhiteSpace s \<noteq> []"
    then have "\<not> isWhiteSpace (hd (dropWhile isWhiteSpace s))" by (rule hd_dropWhile)
    moreover have "hd (dropWhile isWhiteSpace s) \<in> set (dropWhile isWhiteSpace s)"
      using ne by simp
    ultimately show False using a by blast
  qed
  then show "\<forall>c \<in> set s. isWhiteSpace c" by (simp add: dropWhile_eq_Nil_conv)
next
  assume "\<forall>c \<in> set s. isWhiteSpace c"
  then show "trim s = []" by (auto simp: trim_def dropWhile_eq_Nil_conv dest: set_dropWhileD)
qed

lemma blank_no_prefix:
  "\<not> truthy (trim l) \<Longrightarrow> \<not> isWhiteSpace c \<Longrightarrow> \<not> startsWith l (c # p)"
  by (auto simp: truthy_def trim_empty startsWith_Cons)

lemma blank_not_recognised:
  assumes "\<not> truthy (trim l)"
  shows "\<not> startsWith l ''worktree ''" "\<not> startsWith l ''HEAD ''" "\<not> startsWith l ''branch ''"
    "''bare'' \<noteq> l" "\<not> startsWith l ''locked''"
proof -
  show "\<not> startsWith l ''worktree ''"
    by (rule blank_no_prefix[OF assms]) (simp add: isWhiteSpace_def)
  show "\<not> startsWith l ''HEAD ''"
    by (rule blank_no_prefix[OF assms]) (simp add: isWhiteSpace_def)
  show "\<not> startsWith l ''branch ''"
    by (rule blank_no_prefix[OF assms]) (simp add: isWhiteSpace_def)
  show "\<not> startsWith l ''locked''"
    by (rule blank_no_prefix[OF assms]) (simp add: isWhiteSpace_def)
  have "\<not> startsWith l ''bare''"
    by (rule blank_no_prefix[OF assms]) (simp add: isWhiteSpace_def)
  then show "''bare'' \<noteq> l" by (auto simp: startsWith_def)
qed

lemma lastAttr_filter_HEAD:
  "lastAttr ''HEAD '' (filter (\<lambda>l. truthy (trim l)) ls) = lastAttr ''HEAD '' ls"
  by (induction ls)
     (auto simp: lastAttr_HEAD blank_not_recognised simp del: lastAttr.simps split: option.splits)

lemma lastAttr_filter_branch:
  "lastAttr ''branch '' (filter (\<lambda>l. truthy (trim l)) ls) = lastAttr ''branch '' ls"
  by (induction ls)
     (auto simp: lastAttr_branch blank_not_recognised simp del: lastAttr.simps split: option.splits)

lemma blockRecord_filter:
  "blockRecord l (filter (\<lambda>l. truthy (trim l)) attrs) = blockRecord l attrs"
  using blank_not_recognised(4,5)
  by (auto simp: blockRecord_def lastAttr_filter_HEAD lastAttr_filter_branch)

lemma takeWhile_filter_keep:
  "takeWhile (\<lambda>a. \<not> isWorktreeLine a) (filter (\<lambda>l. truthy (trim l)) ls) =
   filter (\<lambda>l. truthy (trim l)) (takeWhile (\<lambda>a. \<not> isWorktreeLine a) ls)"
  by (induction ls) (auto simp: isWorktreeLine_def blank_not_recognised)

lemma blockRecords_filter: "blockRecords (filter (\<lambda>l. truthy (trim l)) ls) = blockRecords ls"
  by (induction ls)
     (auto simp: takeWhile_filter_keep blockRecord_filter
        blank_not_recognised(1)[folded isWorktreeLine_def])

lemma parseWorktreeList_eq_blockRecords: "parseWorktreeList output = blockRecords (split CHR 0x0A output)"
proof -
  have "parseWorktreeList output =
        finish (fold parseLine (filter (\<lambda>l. truthy (trim l)) (split CHR 0x0A output)) (emptyPartial, []))"
    unfolding parseWorktreeList_def finish_def Let_def by (simp split: prod.splits)
  also have "\<dots> = blockRecords (filter (\<lambda>l. truthy (trim l)) (split CHR 0x0A output))"
    by (simp add: finish_fold hasPath_def emptyPartial_def)
  finally show ?thesis by (simp add: blockRecords_filter)
qed

lemma length_blockRecords:
  "length (blockRecords ls) = length (filter (\<lambda>l. isWorktreeLine l \<and> drop 9 l \<noteq> []) ls)"
  by (induction ls) auto




text \<open>
  C3 (amended). For every input text, \<open>parseWorktreeList\<close> is the block reading of the
  text: one record per line that starts with \<open>worktree \<close> and carries a non-empty path,
  in order of appearance; the record's path is the rest of that line, \<open>isMain\<close> holds
  exactly when the block contains the line \<open>bare\<close>, \<open>isLocked\<close> exactly when the
  block contains a line starting with \<open>locked\<close>, commit and branch come from the
  block's own \<open>HEAD\<close> and \<open>branch\<close> lines, and every other line is ignored. The
  empty text gives the empty list.
\<close>

theorem parseWorktreeList_blocks:
  "parseWorktreeList output = blockRecords (split CHR 0x0A output) \<and>
   length (parseWorktreeList output) =
     length (filter (\<lambda>l. isWorktreeLine l \<and> drop 9 l \<noteq> []) (split CHR 0x0A output)) \<and>
   parseWorktreeList [] = []"
  by (simp add: parseWorktreeList_eq_blockRecords length_blockRecords)

text \<open>
  The two-block input of the specification: \<open>bare\<close> in the first block, \<open>locked\<close>
  with a reason in the second, a blank line between them.
\<close>

theorem parseWorktreeList_blocks_witness:
  "map (\<lambda>w. (path w, isMain w, isLocked w))
     (parseWorktreeList ''worktree /a\<newline>bare\<newline>\<newline>worktree /b\<newline>locked reason'')
   = [(''/a'', True, False), (''/b'', False, True)]"
  using parseWorktreeList_blocks
    [of "''worktree /a\<newline>bare\<newline>\<newline>worktree /b\<newline>locked reason''"]
  by (simp add: isWorktreeLine_def startsWith_def blockRecord_def)

text \<open>
  C3 as stated fails: a \<open>worktree \<close> line with nothing after the prefix starts a block,
  but the flush tests the truthiness of the path and the empty path is dropped.
\<close>

theorem parseWorktreeList_empty_path_counterexample:
  "filter isWorktreeLine (split CHR 0x0A ''worktree '') = [''worktree ''] \<and>
   parseWorktreeList ''worktree '' = []"
  by (simp add: isWorktreeLine_def parseWorktreeList_def parseLine_def startsWith_def trim_def
      isWhiteSpace_def truthy_def hasPath_def emptyPartial_def substring_def)

section \<open>Properties of the gateway and of removal\<close>

lemmas io_defs = resolve_def reject_def await_def tryCatch_def consoleError_def
  showInformationMessage_def showErrorMessage_def settle_def callRaw_def callBranchLocal_def
  callBranch_def issueStatus_def statusSettles_def handleGitError_def

lemma GitService_removeWorktree_result:
  "GitService_removeWorktree git p force w =
     ((case git_raw git ([''worktree'', ''remove''] @ (if force then [''--force''] else []) @ [p]) of
         Inl e \<Rightarrow> Returned \<lparr>success = False, error = Some (getErrorMessage e), result_output = None\<rparr>
       | Inr _ \<Rightarrow> Returned \<lparr>success = True, error = None,
                            result_output = Some (''Worktree removed: '' @ p)\<rparr>),
      w\<lparr>git_calls := git_calls w
           @ [Raw ([''worktree'', ''remove''] @ (if force then [''--force''] else []) @ [p])]\<rparr>)"
  by (simp add: GitService_removeWorktree_def io_defs split: sum.splits)

lemma removeWorktree_cancel:
  "showWarningMessage host (warningMessage wt) \<noteq> Some ''Remove'' \<Longrightarrow>
   removeWorktree host git wt w = (Returned False, w)"
  by (simp add: removeWorktree_def io_defs)

lemma removeWorktree_calls:
  "showWarningMessage host (warningMessage wt) = Some ''Remove'' \<Longrightarrow>
   git_calls (snd (removeWorktree host git wt w)) =
     git_calls w @ [Raw ([''worktree'', ''remove'']
                         @ (if hasChanges wt then [''--force''] else [])
                         @ [path wt])]"
  by (simp add: removeWorktree_def GitService_removeWorktree_result io_defs
      split: sum.splits prod.splits completion.splits)

lemma hasChanges_iff: "hasChanges wt \<longleftrightarrow> (\<exists>n. changes wt = Some n \<and> 0 < n)"
  by (auto simp: hasChanges_def split: option.splits)

lemma removeWorktree_confirmed_ok:
  "showWarningMessage host (warningMessage wt) = Some ''Remove'' \<Longrightarrow>
   git_raw git ([''worktree'', ''remove''] @ (if hasChanges wt then [''--force''] else [])
                         @ [path wt]) = Inr out \<Longrightarrow>
   removeWorktree host git wt w = (Returned True,
      w\<lparr>git_calls := git_calls w @ [Raw ([''worktree'', ''remove'']
                         @ (if hasChanges wt then [''--force''] else [])
                         @ [path wt])],
         info_messages := info_messages w @ [checkMark @ '' Worktree '' @ dq @ basename (path wt) @ dq @ '' removed'']\<rparr>)"
  by (cases "hasChanges wt")
     (simp_all add: removeWorktree_def GitService_removeWorktree_result io_defs)


lemma listWorktrees_result:
  "listWorktrees git w =
     (case git_raw git [''worktree'', ''list'', ''--porcelain''] of
        Inr result \<Rightarrow>
          (Returned (parseWorktreeList result),
           w\<lparr>git_calls := git_calls w @ [Raw [''worktree'', ''list'', ''--porcelain'']]\<rparr>)
      | Inl e \<Rightarrow>
          (Returned [],
           w\<lparr>git_calls := git_calls w @ [Raw [''worktree'', ''list'', ''--porcelain'']],
              console_errors := console_errors w
                @ [''Failed to list worktrees: '' @ getErrorMessage e]\<rparr>))"
  by (simp add: listWorktrees_def io_defs split: sum.splits)

lemma getChangesCount_settled_result:
  "getChangesCount_settled git p w =
     (case git_status git p of
        Inr files \<Rightarrow> (Returned (int (length files)), w)
      | Inl e \<Rightarrow>
          (Returned 0,
           w\<lparr>console_errors := console_errors w
                @ [''Failed to get changes count: '' @ getErrorMessage e]\<rparr>))"
  by (simp add: getChangesCount_settled_def io_defs split: sum.splits)

lemma getChangesCount_result:
  "getChangesCount git p w =
     (case git_status git p of
        Inr files \<Rightarrow> (Returned (int (length files)), w\<lparr>git_calls := git_calls w @ [Status p]\<rparr>)
      | Inl e \<Rightarrow>
          (Returned 0,
           w\<lparr>git_calls := git_calls w @ [Status p],
              console_errors := console_errors w
                @ [''Failed to get changes count: '' @ getErrorMessage e]\<rparr>))"
  by (simp add: getChangesCount_def getChangesCount_settled_result issueStatus_def split: sum.splits)

lemma branchExists_result:
  "branchExists git b w =
     (case git_branchLocal git of
        Inr branches \<Rightarrow>
          (Returned (b \<in> set branches), w\<lparr>git_calls := git_calls w @ [BranchLocal]\<rparr>)
      | Inl e \<Rightarrow>
          (Returned False,
           w\<lparr>git_calls := git_calls w @ [BranchLocal],
              console_errors := console_errors w
                @ [''Failed to check branch existence: '' @ getErrorMessage e]\<rparr>))"
  by (simp add: branchExists_def io_defs split: sum.splits)

lemma getAllBranches_result:
  "getAllBranches git w =
     (case git_branchLocal git of
        Inl e \<Rightarrow>
          (Returned [],
           w\<lparr>git_calls := git_calls w @ [BranchLocal],
              console_errors := console_errors w
                @ [''Failed to fetch branches: '' @ getErrorMessage e]\<rparr>)
      | Inr localBranches \<Rightarrow>
          (case git_branch git [''-r''] of
             Inl e \<Rightarrow>
               (Returned [],
                w\<lparr>git_calls := git_calls w @ [BranchLocal, Branch [''-r'']],
                   console_errors := console_errors w
                     @ [''Failed to fetch branches: '' @ getErrorMessage e]\<rparr>)
           | Inr remoteBranches \<Rightarrow>
               (Returned (uniqueInOrder (localBranches @ map trim remoteBranches)),
                w\<lparr>git_calls := git_calls w @ [BranchLocal, Branch [''-r'']]\<rparr>)))"
  by (simp add: getAllBranches_def io_defs split: sum.splits)


lemma removeWorktree_confirmed_failed:
  "showWarningMessage host (warningMessage wt) = Some ''Remove'' \<Longrightarrow>
   git_raw git ([''worktree'', ''remove''] @ (if hasChanges wt then [''--force''] else [])
                         @ [path wt]) = Inl e \<Longrightarrow>
   removeWorktree host git wt w = (Returned False,
      w\<lparr>git_calls := git_calls w @ [Raw ([''worktree'', ''remove'']
                         @ (if hasChanges wt then [''--force''] else [])
                         @ [path wt])],
         error_messages := error_messages w
           @ [''Failed to remove worktree: ''
              @ orDefault (Some (getErrorMessage e)) ''Failed to remove worktree'']\<rparr>)"
  by (cases "hasChanges wt")
     (simp_all add: removeWorktree_def GitService_removeWorktree_result io_defs getErrorMessage_def)

text \<open>
  C2. Unless the confirmation prompt answers \<open>Remove\<close>, \<open>removeWorktree\<close> returns false
  and leaves the world as it was: no call of the external tool, no message. When it
  answers \<open>Remove\<close>, exactly one call is issued, the gateway's remove, with \<open>--force\<close>
  exactly when the record's change count is positive.
\<close>

theorem removeWorktree_requires_confirmation:
  "(showWarningMessage host (warningMessage wt) \<noteq> Some ''Remove'' \<longrightarrow>
      removeWorktree host git wt w = (Returned False, w)) \<and>
   (showWarningMessage host (warningMessage wt) = Some ''Remove'' \<longrightarrow>
      git_calls (snd (removeWorktree host git wt w)) =
        git_calls w @ [Raw ([''worktree'', ''remove'']
                            @ (if \<exists>n. changes wt = Some n \<and> 0 < n then [''--force''] else [])
                            @ [path wt])])"
  using removeWorktree_cancel[of host wt git w] removeWorktree_calls[of host wt git w]
  by (simp add: hasChanges_iff)

theorem removeWorktree_requires_confirmation_witness:
  "removeWorktree (answeringHost (Some ''Cancel'')) healthyGit featureWorktree emptyWorld =
     (Returned False, emptyWorld) \<and>
   removeWorktree (answeringHost None) healthyGit featureWorktree emptyWorld =
     (Returned False, emptyWorld) \<and>
   git_calls (snd (removeWorktree (answeringHost (Some ''Remove'')) healthyGit featureWorktree
                     emptyWorld)) =
     [Raw [''worktree'', ''remove'', ''--force'', ''/repo-feature'']]"
  using removeWorktree_requires_confirmation
          [of "answeringHost (Some ''Cancel'')" featureWorktree healthyGit emptyWorld]
        removeWorktree_requires_confirmation
          [of "answeringHost None" featureWorktree healthyGit emptyWorld]
        removeWorktree_requires_confirmation
          [of "answeringHost (Some ''Remove'')" featureWorktree healthyGit emptyWorld]
  by (simp add: answeringHost_def featureWorktree_def emptyWorld_def)

text \<open>
  C5. When the external tool fails, \<open>listWorktrees\<close> returns the empty list,
  \<open>getChangesCount\<close> returns 0, \<open>branchExists\<close> returns false and
  \<open>getAllBranches\<close> returns the empty list, each after one line on the console; and
  whatever the tool answers, each of the four returns a value: none throws and none stays
  pending.
\<close>

theorem read_operations_degrade:
  "(git_raw git [''worktree'', ''list'', ''--porcelain''] = Inl e \<longrightarrow>
      listWorktrees git w =
        (Returned [],
         w\<lparr>git_calls := git_calls w @ [Raw [''worktree'', ''list'', ''--porcelain'']],
            console_errors := console_errors w
              @ [''Failed to list worktrees: '' @ getErrorMessage e]\<rparr>)) \<and>
   (git_status git p = Inl e \<longrightarrow>
      getChangesCount git p w =
        (Returned 0,
         w\<lparr>git_calls := git_calls w @ [Status p],
            console_errors := console_errors w
              @ [''Failed to get changes count: '' @ getErrorMessage e]\<rparr>)) \<and>
   (git_branchLocal git = Inl e \<longrightarrow>
      branchExists git b w =
        (Returned False,
         w\<lparr>git_calls := git_calls w @ [BranchLocal],
            console_errors := console_errors w
              @ [''Failed to check branch existence: '' @ getErrorMessage e]\<rparr>)) \<and>
   (git_branchLocal git = Inl e \<or> git_branch git [''-r''] = Inl e \<longrightarrow>
      fst (getAllBranches git w) = Returned [] \<and>
      (\<exists>e'. console_errors (snd (getAllBranches git w)) =
              console_errors w @ [''Failed to fetch branches: '' @ getErrorMessage e'])) \<and>
   (\<exists>v. fst (listWorktrees git w) = Returned v) \<and>
   (\<exists>v. fst (getChangesCount git p w) = Returned v) \<and>
   (\<exists>v. fst (branchExists git b w) = Returned v) \<and>
   (\<exists>v. fst (getAllBranches git w) = Returned v)"
  by (auto simp: listWorktrees_result getChangesCount_result branchExists_result
      getAllBranches_result split: sum.splits)

theorem read_operations_degrade_witness:
  "fst (listWorktrees brokenGit emptyWorld) = Returned [] \<and>
   fst (getChangesCount brokenGit ''/repo-feature'' emptyWorld) = Returned 0 \<and>
   fst (branchExists brokenGit ''main'' emptyWorld) = Returned False \<and>
   fst (getAllBranches brokenGit emptyWorld) = Returned [] \<and>
   console_errors (snd (listWorktrees brokenGit emptyWorld)) =
     [''Failed to list worktrees: spawn git ENOENT'']"
  using read_operations_degrade
          [of brokenGit "Error ''spawn git ENOENT''" emptyWorld "''/repo-feature''" "''main''"]
  by (simp add: brokenGit_def emptyWorld_def getErrorMessage_def)

section \<open>Properties of validation\<close>

lemma branchExists_value: "fst (branchExists git b w) = Returned (localBranch git b)"
  by (simp add: branchExists_result localBranch_def split: sum.splits)

lemma validateCreateOptions_value:
  "fst (validateCreateOptions host git rootPath options w) =
     Returned
       ((if nameMatches (opt_name options) then [] else [nameError])
        @ (if \<not> opt_createBranch options \<and> \<not> localBranch git (opt_branch options)
           then [branchError (opt_branch options)] else [])
        @ (if pathExists host (path_join host [rootPath, opt_basePath options, opt_name options])
           then [pathError (path_join host [rootPath, opt_basePath options, opt_name options])]
           else []))"
  by (simp add: validateCreateOptions_def branchExists_result stat_def io_defs nameError_def
      branchError_def pathError_def localBranch_def pathExists_def Let_def
      split: sum.splits)

lemma space_not_nameChar: "\<not> isNameChar CHR '' ''"
  by (simp add: isNameChar_def Let_def)

lemma space_not_name: "CHR '' '' \<in> set s \<Longrightarrow> \<not> nameMatches s"
  using space_not_nameChar by (auto simp: nameMatches_def list_all_iff)

text \<open>
  C7. \<open>validateCreateOptions\<close> returns, in this order, the message of every check that
  fails: the name does not match \<open>^[a-zA-Z0-9-_]+$\<close>; \<open>createBranch\<close> is false and
  the branch is not a local branch; the joined destination path exists. No check stops
  another. In particular a name with a space always yields the name message.
\<close>

theorem validateCreateOptions_collects:
  "fst (validateCreateOptions host git rootPath options w) =
     Returned
       ((if nameMatches (opt_name options) then [] else [nameError])
        @ (if \<not> opt_createBranch options \<and> \<not> localBranch git (opt_branch options)
           then [branchError (opt_branch options)] else [])
        @ (if pathExists host (path_join host [rootPath, opt_basePath options, opt_name options])
           then [pathError (path_join host [rootPath, opt_basePath options, opt_name options])]
           else [])) \<and>
   (CHR '' '' \<in> set (opt_name options) \<longrightarrow>
      (\<exists>errors. fst (validateCreateOptions host git rootPath options w) = Returned errors \<and>
                nameError \<in> set errors))"
  by (simp add: validateCreateOptions_value space_not_name)

theorem validateCreateOptions_collects_witness:
  "fst (validateCreateOptions (answeringHost None) healthyGit ''/repo'' featAuthOptions emptyWorld) =
     Returned [nameError, branchError ''release''] \<and>
   fst (validateCreateOptions (answeringHost None) healthyGit ''/repo''
          (featAuthOptions\<lparr>opt_name := ''repo-feature''\<rparr>) emptyWorld) =
     Returned [branchError ''release'', pathError ''/repo/../repo-feature'']"
  using validateCreateOptions_collects
          [of "answeringHost None" healthyGit "''/repo''" featAuthOptions emptyWorld]
        validateCreateOptions_collects
          [of "answeringHost None" healthyGit "''/repo''"
              "featAuthOptions\<lparr>opt_name := ''repo-feature''\<rparr>" emptyWorld]
  by (simp add: featAuthOptions_def answeringHost_def healthyGit_def nameMatches_def
      isNameChar_def localBranch_def pathExists_def Let_def)

lemma set_uniqueInOrder: "set (uniqueInOrder xs) = set xs"
  by (simp add: uniqueInOrder_def)

text \<open>
  C9. A branch name that the tool reports only among the remote branches is listed by
  \<open>getAllBranches\<close>, yet \<open>branchExists\<close> is false for it, and
  \<open>validateCreateOptions\<close> with \<open>createBranch = false\<close> reports it as not existing.
\<close>

theorem branchExists_local_only:
  assumes "git_branchLocal git = Inr localBranches"
      and "git_branch git [''-r''] = Inr remoteBranches"
      and "b \<in> set (map trim remoteBranches)"
      and "b \<notin> set localBranches"
  shows "(\<exists>branches. fst (getAllBranches git w) = Returned branches \<and> b \<in> set branches) \<and>
         fst (branchExists git b w) = Returned False \<and>
         (\<exists>errors. fst (validateCreateOptions host git rootPath
                           (options\<lparr>opt_branch := b, opt_createBranch := False\<rparr>) w)
                    = Returned errors \<and>
                   branchError b \<in> set errors)"
  using assms
  by (simp add: getAllBranches_result branchExists_result validateCreateOptions_value
      localBranch_def set_uniqueInOrder)

theorem branchExists_local_only_witness:
  "(\<exists>branches. fst (getAllBranches healthyGit emptyWorld) = Returned branches \<and>
               ''origin/release'' \<in> set branches) \<and>
   fst (branchExists healthyGit ''origin/release'' emptyWorld) = Returned False \<and>
   (\<exists>errors. fst (validateCreateOptions (answeringHost None) healthyGit ''/repo''
                     (featAuthOptions\<lparr>opt_branch := ''origin/release'', opt_createBranch := False\<rparr>)
                     emptyWorld) = Returned errors \<and>
              branchError ''origin/release'' \<in> set errors)"
  using branchExists_local_only
          [of healthyGit "[''main'', ''feature'']" "[''origin/main'', ''origin/release'']"
              "''origin/release''" emptyWorld "answeringHost None" "''/repo''" featAuthOptions]
  by (simp add: healthyGit_def trim_def isWhiteSpace_def)

section \<open>Properties of enrichment\<close>

lemma listWorktrees_value: "fst (listWorktrees git w) = Returned (listed git)"
  by (simp add: listWorktrees_result listed_def split: sum.splits)

text \<open>
  \<open>Promise.all\<close> over callbacks that always return: once every promise has settled, in
  whatever order, the result holds the callbacks' values in the order of the input.
\<close>

lemma await_Returned: "m w = (Returned x, w') \<Longrightarrow> await m f w = f x w'"
  by (simp add: await_def)

lemma settleAt_returns:
  assumes "continuation (xs ! i) w = (Returned y, w')" "i < length xs" "slots ! i = None"
  shows "settleAt continuation xs i (slots, None, w) = (slots[i := Some y], None, w')"
  using assms by (simp add: settleAt_def)

lemma settleAt_skips:
  assumes "\<not> (i < length xs \<and> slots ! i = None)"
  shows "settleAt continuation xs i (slots, r, w) = (slots, r, w)"
  using assms by (auto simp: settleAt_def)

lemma fold_settleAt:
  assumes cont: "\<forall>x w. \<exists>w'. continuation x w = (Returned (g x), w')"
  shows "length slots = length xs \<Longrightarrow>
         (\<forall>i<length xs. slots ! i = None \<or> slots ! i = Some (g (xs ! i))) \<Longrightarrow>
         \<exists>slots' w'. fold (settleAt continuation xs) sched (slots, None, w) = (slots', None, w') \<and>
           length slots' = length xs \<and>
           (\<forall>i<length xs. (slots' ! i = None \<or> slots' ! i = Some (g (xs ! i))) \<and>
                           (i \<in> set sched \<or> slots ! i \<noteq> None \<longrightarrow> slots' ! i \<noteq> None))"
proof (induction sched arbitrary: slots w)
  case Nil
  then show ?case by simp
next
  case (Cons a sched)
  show ?case
  proof (cases "a < length xs \<and> slots ! a = None")
    case True
    obtain w1 where w1: "continuation (xs ! a) w = (Returned (g (xs ! a)), w1)"
      using cont by blast
    have step: "settleAt continuation xs a (slots, None, w) = (slots[a := Some (g (xs ! a))], None, w1)"
      using settleAt_returns[of continuation xs a w "g (xs ! a)" w1 slots] w1 True by simp
    have len: "length (slots[a := Some (g (xs ! a))]) = length xs" using Cons.prems by simp
    have inv: "\<forall>i<length xs. (slots[a := Some (g (xs ! a))]) ! i = None \<or>
                 (slots[a := Some (g (xs ! a))]) ! i = Some (g (xs ! i))"
      using Cons.prems True by (auto simp: nth_list_update)
    from Cons.IH[OF len inv, of w1] obtain slots' w' where
      r: "fold (settleAt continuation xs) sched (slots[a := Some (g (xs ! a))], None, w1) = (slots', None, w')"
         "length slots' = length xs"
         "\<forall>i<length xs. (slots' ! i = None \<or> slots' ! i = Some (g (xs ! i))) \<and>
             (i \<in> set sched \<or> (slots[a := Some (g (xs ! a))]) ! i \<noteq> None \<longrightarrow> slots' ! i \<noteq> None)"
      by blast
    have "\<forall>i<length xs. (i \<in> set (a # sched) \<or> slots ! i \<noteq> None \<longrightarrow> slots' ! i \<noteq> None)"
      using r(3) Cons.prems(1) True by (auto simp: nth_list_update)
    with r step show ?thesis by auto
  next
    case False
    have step: "settleAt continuation xs a (slots, None, w) = (slots, None, w)"
      using settleAt_skips[OF False] by simp
    from Cons.IH[OF Cons.prems, of w] obtain slots' w' where
      r: "fold (settleAt continuation xs) sched (slots, None, w) = (slots', None, w')"
         "length slots' = length xs"
         "\<forall>i<length xs. (slots' ! i = None \<or> slots' ! i = Some (g (xs ! i))) \<and>
             (i \<in> set sched \<or> slots ! i \<noteq> None \<longrightarrow> slots' ! i \<noteq> None)"
      by blast
    have "\<forall>i<length xs. (i \<in> set (a # sched) \<or> slots ! i \<noteq> None \<longrightarrow> slots' ! i \<noteq> None)"
      using r(3) False by auto
    with r step show ?thesis by auto
  qed
qed

lemma promiseAll_value:
  assumes cont: "\<forall>x w. \<exists>w'. continuation x w = (Returned (g x), w')"
      and all: "\<forall>i<length xs. i \<in> set sched"
  shows "\<exists>w'. promiseAll start continuation xs sched w = (Returned (map g xs), w')"
proof -
  from fold_settleAt[where continuation=continuation and g=g
        and slots="replicate (length xs) None" and xs=xs
        and sched=sched and w="fold start xs w", OF cont]
  obtain slots' w' where
    r: "fold (settleAt continuation xs) sched (replicate (length xs) None, None, fold start xs w)
          = (slots', None, w')"
       "length slots' = length xs"
       "\<forall>i<length xs. (slots' ! i = None \<or> slots' ! i = Some (g (xs ! i))) \<and>
             (i \<in> set sched \<or> replicate (length xs) None ! i \<noteq> None \<longrightarrow> slots' ! i \<noteq> None)"
    by auto
  have "slots' = map (\<lambda>x. Some (g x)) xs"
    using r(2,3) all by (auto intro!: nth_equalityI)
  then have "list_all (\<lambda>slot. slot \<noteq> None) slots'" "map the slots' = map g xs"
    by (simp_all add: list_all_iff comp_def)
  with r(1) show ?thesis by (simp add: promiseAll_def)
qed

lemma withChanges_returns:
  "\<forall>x w. \<exists>w'. withChanges git x w =
         (Returned (x\<lparr>changes := Some (statusCount git (path x))\<rparr>), w')"
  by (simp add: withChanges_def getChangesCount_settled_result statusCount_def io_defs
      split: sum.splits)

lemma getWorktrees_value:
  assumes "\<forall>i<length (listed git). i \<in> set sched"
  shows "fst (getWorktrees git sched w) =
           Returned (map (\<lambda>wt. wt\<lparr>changes := Some (statusCount git (path wt))\<rparr>) (listed git))"
proof -
  obtain w1 where l: "listWorktrees git w = (Returned (listed git), w1)"
    using listWorktrees_value[of git w] by (cases "listWorktrees git w") simp
  obtain w2 where p2: "promiseAll (\<lambda>wt. issueStatus (path wt)) (withChanges git)
              (listed git) sched w1 =
           (Returned (map (\<lambda>wt. wt\<lparr>changes := Some (statusCount git (path wt))\<rparr>) (listed git)), w2)"
    using promiseAll_value[where g="\<lambda>wt. wt\<lparr>changes := Some (statusCount git (path wt))\<rparr>"
          and continuation="withChanges git"
          and start="\<lambda>wt. issueStatus (path wt)" and w=w1,
          OF withChanges_returns assms] by blast
  show ?thesis
    by (simp add: getWorktrees_def await_def l p2 resolve_def)
qed

text \<open>
  C10. Once every status lookup has settled, in any order, \<open>getWorktrees\<close> returns one
  record per record of \<open>listWorktrees\<close>, in the same order, each equal to its input
  record except for \<open>changes\<close>, which holds the number of status entries of its path.
\<close>

theorem getWorktrees_adds_changes:
  assumes "\<forall>i<length (listed git). i \<in> set sched"
  shows "fst (listWorktrees git w) = Returned (listed git) \<and>
         fst (getWorktrees git sched w) =
           Returned (map (\<lambda>wt. wt\<lparr>changes := Some (statusCount git (path wt))\<rparr>) (listed git)) \<and>
         (\<exists>enriched.
            fst (getWorktrees git sched w) = Returned enriched \<and>
            length enriched = length (listed git) \<and>
            (\<forall>i<length enriched.
               path (enriched ! i) = path (listed git ! i) \<and>
               branch (enriched ! i) = branch (listed git ! i) \<and>
               commit (enriched ! i) = commit (listed git ! i) \<and>
               isMain (enriched ! i) = isMain (listed git ! i) \<and>
               isLocked (enriched ! i) = isLocked (listed git ! i) \<and>
               activeCLIs (enriched ! i) = activeCLIs (listed git ! i)))"
  using getWorktrees_value[OF assms, of w] by (simp add: listWorktrees_value)

theorem getWorktrees_adds_changes_witness:
  "fst (getWorktrees healthyGit [1, 0] emptyWorld) =
     Returned [\<lparr>path = ''/repo'', branch = Some ''refs/heads/main'', commit = Some ''1111111111'',
                isMain = False, isLocked = False, changes = Some 0, activeCLIs = None\<rparr>,
               \<lparr>path = ''/repo-feature'', branch = Some ''refs/heads/feature'',
                commit = Some ''2222222222'', isMain = False, isLocked = False,
                changes = Some 3, activeCLIs = None\<rparr>]"
proof -
  have l: "listed healthyGit =
     [\<lparr>path = ''/repo'', branch = Some ''refs/heads/main'', commit = Some ''1111111111'',
                isMain = False, isLocked = False, changes = None, activeCLIs = None\<rparr>,
               \<lparr>path = ''/repo-feature'', branch = Some ''refs/heads/feature'',
                commit = Some ''2222222222'', isMain = False, isLocked = False,
                changes = None, activeCLIs = None\<rparr>]"
    by (simp add: listed_def healthyGit_def parseWorktreeList_eq_blockRecords isWorktreeLine_def
        startsWith_def blockRecord_def)
  have "\<forall>i<length (listed healthyGit). i \<in> set [1, 0]"
    by (auto simp: l less_Suc_eq)
  from getWorktrees_adds_changes[OF this, of emptyWorld]
  have "fst (getWorktrees healthyGit [1, 0] emptyWorld) =
           Returned (map (\<lambda>wt. wt\<lparr>changes := Some (statusCount healthyGit (path wt))\<rparr>)
                      (listed healthyGit))"
    by blast
  then show ?thesis
    unfolding l by (simp add: statusCount_def healthyGit_def)
qed

section \<open>Properties of the terminal tracker\<close>

lemma findIndex_ge: "- 1 \<le> findIndex P xs"
  by (induction xs) (auto simp: Let_def)

lemma findIndex_none: "findIndex P xs = - 1 \<longleftrightarrow> (\<forall>x \<in> set xs. \<not> P x)"
proof (induction xs)
  case Nil
  show ?case by simp
next
  case (Cons a xs)
  with findIndex_ge[of P xs] show ?case by (auto simp: Let_def)
qed

lemma splice1_findIndex:
  "\<exists>x \<in> set xs. P x \<Longrightarrow> splice1 xs (findIndex P xs) = removeFirst P xs"
proof (induction xs)
  case Nil
  then show ?case by simp
next
  case (Cons a xs)
  show ?case
  proof (cases "P a")
    case True
    then show ?thesis by (simp add: splice1_def)
  next
    case False
    with Cons.prems have ex: "\<exists>x \<in> set xs. P x" by auto
    then have ne: "findIndex P xs \<noteq> - 1" by (simp add: findIndex_none)
    with findIndex_ge[of P xs] have nn: "0 \<le> findIndex P xs" by linarith
    have "splice1 (a # xs) (findIndex P xs + 1) = a # splice1 xs (findIndex P xs)"
      using nn by (simp add: splice1_def nat_add_distrib)
    with False ne Cons.IH[OF ex] show ?thesis by (simp add: Let_def)
  qed
qed

lemma map_of_mapSet: "map_of (mapSet m k v) = (map_of m)(k \<mapsto> v)"
  by (induction m) (auto simp: fun_eq_iff)

lemma map_of_mapDelete: "map_of (mapDelete m k) = (map_of m)(k := None)"
  by (induction m) (auto simp: mapDelete_def fun_eq_iff)

lemma keys_mapSet:
  "map fst (mapSet m k v) = (if k \<in> fst ` set m then map fst m else map fst m @ [k])"
  by (induction m k v rule: mapSet.induct) (auto simp: image_iff)

lemma keys_mapDelete: "map fst (mapDelete m k) = filter (\<lambda>q. q \<noteq> k) (map fst m)"
  by (induction m) (auto simp: mapDelete_def)

lemma keyset_mapSet: "fst ` set (mapSet m k v) = insert k (fst ` set m)"
  using keys_mapSet[of m k v, THEN arg_cong, of set] by (auto simp del: keys_mapSet)

lemma keyset_mapDelete: "fst ` set (mapDelete m k) = fst ` set m - {k}"
  using keys_mapDelete[of m k, THEN arg_cong, of set] by auto

lemma set_mapSet: "set (mapSet m k v) \<subseteq> insert (k, v) (set m)"
  by (induction m k v rule: mapSet.induct) auto

lemma loop_untracked:
  "\<forall>entry \<in> set entries. \<not> holds t (snd entry) \<Longrightarrow> removeTerminalLoop entries t tr = tr"
  by (induction entries) (auto simp: holds_def findIndex_none Let_def)

lemma loop_tracked:
  assumes "find (\<lambda>entry. holds t (snd entry)) entries = Some (p, ts)"
  shows "removeTerminalLoop entries t tr =
           tr\<lparr>terminals := (if removeFirst (\<lambda>x. terminal x = t) ts = []
                              then mapDelete (terminals tr) p
                              else mapSet (terminals tr) p (removeFirst (\<lambda>x. terminal x = t) ts)),
                fired := fired tr @ [p]\<rparr>"
  using assms
proof (induction entries)
  case Nil
  then show ?case by simp
next
  case (Cons e entries)
  obtain q us where e: "e = (q, us)" by (cases e)
  show ?case
  proof (cases "holds t us")
    case True
    with Cons.prems e have eq: "q = p" "us = ts" by simp_all
    from True have ex: "\<exists>x \<in> set us. terminal x = t" by (simp add: holds_def)
    then have "findIndex (\<lambda>x. terminal x = t) us \<noteq> - 1" by (simp add: findIndex_none)
    then show ?thesis
      using splice1_findIndex[of us "\<lambda>x. terminal x = t", OF ex] e eq
      by (simp add: Let_def)
  next
    case False
    then have "findIndex (\<lambda>x. terminal x = t) us = - 1"
      by (simp add: holds_def findIndex_none)
    with Cons False e show ?thesis by (simp add: Let_def)
  qed
qed


lemma removeTerminal_untracked: "\<not> isTracked tr t \<Longrightarrow> removeTerminal t tr = tr"
  by (simp add: removeTerminal_def isTracked_def loop_untracked)

lemma tracked_find:
  assumes "isTracked tr t"
  obtains p ts where "find (\<lambda>entry. holds t (snd entry)) (terminals tr) = Some (p, ts)"
    "(p, ts) \<in> set (terminals tr)" "holds t ts"
proof -
  from assms have "find (\<lambda>entry. holds t (snd entry)) (terminals tr) \<noteq> None"
    unfolding isTracked_def find_None_iff by blast
  then obtain e where e: "find (\<lambda>entry. holds t (snd entry)) (terminals tr) = Some e" by blast
  then have "e \<in> set (terminals tr)" "holds t (snd e)"
    by (auto simp: find_Some_iff)
  with e that[of "fst e" "snd e"] show thesis by simp
qed

lemma removeTerminal_tracked:
  assumes wf: "wellFormed tr" and tracked: "isTracked tr t"
  shows "\<exists>p. firstBucketWith tr t = Some p \<and>
             holds t (getTerminals tr p) \<and>
             fired (removeTerminal t tr) = fired tr @ [p] \<and>
             (\<forall>q. getTerminals (removeTerminal t tr) q =
                    (if q = p then removeFirst (\<lambda>x. terminal x = t) (getTerminals tr p)
                     else getTerminals tr q)) \<and>
             set (getAllActiveWorktrees (removeTerminal t tr)) =
               (if removeFirst (\<lambda>x. terminal x = t) (getTerminals tr p) = []
                then set (getAllActiveWorktrees tr) - {p}
                else set (getAllActiveWorktrees tr))"
proof -
  from tracked obtain p ts where
    f: "find (\<lambda>entry. holds t (snd entry)) (terminals tr) = Some (p, ts)"
    and mem: "(p, ts) \<in> set (terminals tr)" and h: "holds t ts"
    by (rule tracked_find)
  from wf mem have look: "map_of (terminals tr) p = Some ts"
    by (simp add: wellFormed_def)
  then have gt: "getTerminals tr p = ts" by (simp add: getTerminals_def mapGet_def)
  from mem have pk: "p \<in> fst ` set (terminals tr)" by force
  have st: "removeTerminal t tr =
           tr\<lparr>terminals := (if removeFirst (\<lambda>x. terminal x = t) ts = []
                              then mapDelete (terminals tr) p
                              else mapSet (terminals tr) p (removeFirst (\<lambda>x. terminal x = t) ts)),
                fired := fired tr @ [p]\<rparr>"
    unfolding removeTerminal_def by (rule loop_tracked[OF f])
  have "firstBucketWith tr t = Some p" by (simp add: firstBucketWith_def f)
  moreover have "holds t (getTerminals tr p)" using h gt by simp
  moreover have "fired (removeTerminal t tr) = fired tr @ [p]" by (simp add: st)
  moreover have "\<forall>q. getTerminals (removeTerminal t tr) q =
                    (if q = p then removeFirst (\<lambda>x. terminal x = t) (getTerminals tr p)
                     else getTerminals tr q)"
    by (simp add: st getTerminals_def mapGet_def map_of_mapSet map_of_mapDelete look)
  moreover have "set (getAllActiveWorktrees (removeTerminal t tr)) =
               (if removeFirst (\<lambda>x. terminal x = t) (getTerminals tr p) = []
                then set (getAllActiveWorktrees tr) - {p}
                else set (getAllActiveWorktrees tr))"
    using pk by (simp add: st gt getAllActiveWorktrees_def keyset_mapSet keyset_mapDelete
        insert_absorb)
  ultimately show ?thesis by blast
qed

lemma trackTerminal_inv:
  assumes "wellFormed tr" "noEmptyBucket tr"
  shows "wellFormed (trackTerminal t p cli now tr)" "noEmptyBucket (trackTerminal t p cli now tr)"
proof -
  show "wellFormed (trackTerminal t p cli now tr)"
    using assms(1) by (auto simp: wellFormed_def trackTerminal_def keys_mapSet Let_def)
  show "noEmptyBucket (trackTerminal t p cli now tr)"
    using assms(2) set_mapSet[of "terminals tr" p]
    by (fastforce simp: noEmptyBucket_def trackTerminal_def Let_def)
qed

lemma removeTerminal_inv:
  assumes "wellFormed tr" "noEmptyBucket tr"
  shows "wellFormed (removeTerminal t tr)" "noEmptyBucket (removeTerminal t tr)"
proof -
  have "wellFormed (removeTerminal t tr) \<and> noEmptyBucket (removeTerminal t tr)"
  proof (cases "isTracked tr t")
    case False
    with assms show ?thesis by (simp add: removeTerminal_untracked)
  next
    case True
    then obtain p ts where
      f: "find (\<lambda>entry. holds t (snd entry)) (terminals tr) = Some (p, ts)"
      and mem: "(p, ts) \<in> set (terminals tr)"
      by (rule tracked_find)
    from mem have pk: "p \<in> fst ` set (terminals tr)" by force
    have st: "removeTerminal t tr =
           tr\<lparr>terminals := (if removeFirst (\<lambda>x. terminal x = t) ts = []
                              then mapDelete (terminals tr) p
                              else mapSet (terminals tr) p (removeFirst (\<lambda>x. terminal x = t) ts)),
                fired := fired tr @ [p]\<rparr>"
      unfolding removeTerminal_def by (rule loop_tracked[OF f])
    have "wellFormed (removeTerminal t tr)"
      using assms(1) pk by (simp add: st wellFormed_def keys_mapSet keys_mapDelete)
    moreover have "noEmptyBucket (removeTerminal t tr)"
      using assms(2) set_mapSet[of "terminals tr" p "removeFirst (\<lambda>x. terminal x = t) ts"]
      by (fastforce simp: st noEmptyBucket_def mapDelete_def)
    ultimately show ?thesis by simp
  qed
  then show "wellFormed (removeTerminal t tr)" "noEmptyBucket (removeTerminal t tr)" by simp_all
qed

lemma runCalls_inv:
  "wellFormed tr \<Longrightarrow> noEmptyBucket tr \<Longrightarrow>
   wellFormed (runCalls calls tr) \<and> noEmptyBucket (runCalls calls tr)"
proof (induction calls arbitrary: tr)
  case Nil
  then show ?case by (simp add: runCalls_def)
next
  case (Cons c calls)
  have "wellFormed (applyCall c tr) \<and> noEmptyBucket (applyCall c tr)"
    using Cons.prems by (cases c) (simp_all add: trackTerminal_inv removeTerminal_inv)
  then show ?case using Cons.IH[of "applyCall c tr"] by (simp add: runCalls_def)
qed

lemma new_inv: "wellFormed newTerminalTracker \<and> noEmptyBucket newTerminalTracker"
  by (simp add: wellFormed_def noEmptyBucket_def newTerminalTracker_def)


lemma keys_iff_sessions:
  assumes "wellFormed tr" "noEmptyBucket tr"
  shows "p \<in> set (getAllActiveWorktrees tr) \<longleftrightarrow> getTerminals tr p \<noteq> []"
proof
  assume "p \<in> set (getAllActiveWorktrees tr)"
  then obtain ts where mem: "(p, ts) \<in> set (terminals tr)"
    by (auto simp: getAllActiveWorktrees_def)
  with assms(1) have "map_of (terminals tr) p = Some ts" by (simp add: wellFormed_def)
  moreover from mem assms(2) have "ts \<noteq> []" by (force simp: noEmptyBucket_def)
  ultimately show "getTerminals tr p \<noteq> []" by (simp add: getTerminals_def mapGet_def)
next
  assume "getTerminals tr p \<noteq> []"
  then obtain ts where "map_of (terminals tr) p = Some ts"
    by (auto simp: getTerminals_def mapGet_def split: option.splits)
  then have "(p, ts) \<in> set (terminals tr)" by (rule map_of_SomeD)
  then show "p \<in> set (getAllActiveWorktrees tr)"
    by (force simp: getAllActiveWorktrees_def)
qed

text \<open>
  C6. \<open>removeTerminal\<close> of a handle that no bucket holds returns the registry as it
  was, with no event fired. For a tracked handle it removes the first session with that
  handle from the first bucket that holds it, leaves every other bucket as it was, fires
  one event with that bucket's path, and deletes the bucket when it has become empty.
  After any sequence of \<open>trackTerminal\<close> and \<open>removeTerminal\<close> calls from the empty
  registry no bucket is empty: the paths of the map are exactly those with a session.
\<close>

theorem removeTerminal_registry:
  "(\<not> isTracked tr t \<longrightarrow> removeTerminal t tr = tr) \<and>
   (wellFormed tr \<and> isTracked tr t \<longrightarrow>
      (\<exists>p. firstBucketWith tr t = Some p \<and>
           holds t (getTerminals tr p) \<and>
           fired (removeTerminal t tr) = fired tr @ [p] \<and>
           (\<forall>q. getTerminals (removeTerminal t tr) q =
                  (if q = p then removeFirst (\<lambda>x. terminal x = t) (getTerminals tr p)
                   else getTerminals tr q)) \<and>
           set (getAllActiveWorktrees (removeTerminal t tr)) =
             (if removeFirst (\<lambda>x. terminal x = t) (getTerminals tr p) = []
              then set (getAllActiveWorktrees tr) - {p}
              else set (getAllActiveWorktrees tr)))) \<and>
   wellFormed (runCalls calls newTerminalTracker) \<and>
   (\<forall>entry \<in> set (terminals (runCalls calls newTerminalTracker)). snd entry \<noteq> []) \<and>
   (\<forall>p. p \<in> set (getAllActiveWorktrees (runCalls calls newTerminalTracker)) \<longleftrightarrow>
        getTerminals (runCalls calls newTerminalTracker) p \<noteq> [])"
proof -
  have inv: "wellFormed (runCalls calls newTerminalTracker) \<and>
             noEmptyBucket (runCalls calls newTerminalTracker)"
    using new_inv by (simp add: runCalls_inv)
  then have "\<forall>entry \<in> set (terminals (runCalls calls newTerminalTracker)). snd entry \<noteq> []"
    by (simp add: noEmptyBucket_def)
  with inv show ?thesis
    using removeTerminal_untracked[of tr t] removeTerminal_tracked[of tr t]
      keys_iff_sessions[of "runCalls calls newTerminalTracker"]
    by blast
qed

lemma exampleTracker_value:
  "exampleTracker =
     \<lparr>terminals =
        [(''/repo-feature'',
          [\<lparr>terminal = 1, cliName = ''claude'', worktreePath = ''/repo-feature'', startTime = 0\<rparr>,
           \<lparr>terminal = 3, cliName = ''gemini'', worktreePath = ''/repo-feature'', startTime = 2\<rparr>]),
         (''/repo'',
          [\<lparr>terminal = 2, cliName = ''aider'', worktreePath = ''/repo'', startTime = 1\<rparr>])],
      fired = [''/repo-feature'', ''/repo'', ''/repo-feature'']\<rparr>"
  by (simp add: exampleTracker_def runCalls_def trackTerminal_def newTerminalTracker_def
      mapGet_def Let_def)

theorem removeTerminal_registry_witness:
  "removeTerminal 7 exampleTracker = exampleTracker \<and>
   fired (removeTerminal 2 exampleTracker) = fired exampleTracker @ [''/repo''] \<and>
   getTerminals (removeTerminal 2 exampleTracker) ''/repo'' = [] \<and>
   set (getAllActiveWorktrees (removeTerminal 2 exampleTracker)) = {''/repo-feature''} \<and>
   map cliName (getTerminals (removeTerminal 1 exampleTracker) ''/repo-feature'') = [''gemini'']"
proof -
  have wf: "wellFormed exampleTracker"
    by (simp add: exampleTracker_value wellFormed_def)
  have "\<not> isTracked exampleTracker 7"
    by (simp add: exampleTracker_value isTracked_def holds_def)
  with removeTerminal_registry[of exampleTracker 7 "[]"]
  have c1: "removeTerminal 7 exampleTracker = exampleTracker" by blast
  have t2: "isTracked exampleTracker 2" "firstBucketWith exampleTracker 2 = Some ''/repo''"
    by (simp_all add: exampleTracker_value isTracked_def holds_def firstBucketWith_def)
  have g2: "removeFirst (\<lambda>x. terminal x = 2) (getTerminals exampleTracker ''/repo'') = []"
    by (simp add: exampleTracker_value getTerminals_def mapGet_def)
  have k: "set (getAllActiveWorktrees exampleTracker) = {''/repo-feature'', ''/repo''}"
    by (simp add: exampleTracker_value getAllActiveWorktrees_def)
  from removeTerminal_registry[of exampleTracker 2 "[]"] wf t2
  have c2: "fired (removeTerminal 2 exampleTracker) = fired exampleTracker @ [''/repo'']"
    and c3: "getTerminals (removeTerminal 2 exampleTracker) ''/repo'' =
             removeFirst (\<lambda>x. terminal x = 2) (getTerminals exampleTracker ''/repo'')"
    and c4: "set (getAllActiveWorktrees (removeTerminal 2 exampleTracker)) =
             (if removeFirst (\<lambda>x. terminal x = 2) (getTerminals exampleTracker ''/repo'') = []
              then set (getAllActiveWorktrees exampleTracker) - {''/repo''}
              else set (getAllActiveWorktrees exampleTracker))"
    by auto
  have t1: "isTracked exampleTracker 1" "firstBucketWith exampleTracker 1 = Some ''/repo-feature''"
    by (simp_all add: exampleTracker_value isTracked_def holds_def firstBucketWith_def)
  from removeTerminal_registry[of exampleTracker 1 "[]"] wf t1
  have c5: "getTerminals (removeTerminal 1 exampleTracker) ''/repo-feature'' =
             removeFirst (\<lambda>x. terminal x = 1) (getTerminals exampleTracker ''/repo-feature'')"
    by auto
  have g1: "map cliName (removeFirst (\<lambda>x. terminal x = 1)
                          (getTerminals exampleTracker ''/repo-feature'')) = [''gemini'']"
    by (simp add: exampleTracker_value getTerminals_def mapGet_def)
  show ?thesis
    using c1 c2 c3 c4 c5 g1 g2 k by auto
qed

section \<open>Properties of the version check\<close>

lemma split_no_separator: "c \<notin> set a \<Longrightarrow> split c a = [a]"
  by (induction a) auto

lemma split_at_separator: "c \<notin> set a \<Longrightarrow> split c (a @ c # rest) = a # split c rest"
  by (induction a) auto

lemma digit_not_dot: "isDigit c \<Longrightarrow> c \<noteq> CHR ''.''"
  by (auto simp: isDigit_def)

lemma digits_no_dot: "list_all isDigit a \<Longrightarrow> CHR ''.'' \<notin> set a"
  using digit_not_dot by (auto simp: list_all_iff)

lemma split_triple:
  assumes "list_all isDigit a" "list_all isDigit b" "list_all isDigit c"
  shows "split CHR ''.'' (a @ ''.'' @ b @ ''.'' @ c) = [a, b, c]"
  using assms
  by (simp add: split_at_separator split_no_separator digits_no_dot)

lemma digit_not_space: "isDigit c \<Longrightarrow> \<not> isWhiteSpace c"
  by (auto simp: isDigit_def isWhiteSpace_def)

lemma trim_no_space: "\<forall>c \<in> set s. \<not> isWhiteSpace c \<Longrightarrow> trim s = s"
proof -
  assume a: "\<forall>c \<in> set s. \<not> isWhiteSpace c"
  have d: "\<And>xs. \<forall>c \<in> set xs. \<not> isWhiteSpace c \<Longrightarrow> dropWhile isWhiteSpace xs = xs"
    by (case_tac xs) auto
  show ?thesis using a by (simp add: trim_def d)
qed

lemma toNumber_digits: "list_all isDigit s \<Longrightarrow> toNumber s = Number (int (decimalValue s))"
  using digit_not_space
  by (auto simp: toNumber_def Let_def trim_no_space list_all_iff decimalValue_def)

lemma compareLoop_numbers:
  "compareLoop [Number (int x1), Number (int y1), Number (int z1)]
               [Number (int x2), Number (int y2), Number (int z2)] [0, 1, 2] =
   ordinalCompare [x1, y1, z1] [x2, y2, z2]"
  by (simp add: elementAt_def greaterThan_def lessThan_js_def)

lemma compareVersions_triples:
  assumes "list_all isDigit a1" "list_all isDigit b1" "list_all isDigit c1"
      and "list_all isDigit a2" "list_all isDigit b2" "list_all isDigit c2"
  shows "compareVersions (a1 @ ''.'' @ b1 @ ''.'' @ c1) (a2 @ ''.'' @ b2 @ ''.'' @ c2) =
           ordinalCompare [decimalValue a1, decimalValue b1, decimalValue c1]
                          [decimalValue a2, decimalValue b2, decimalValue c2]"
proof -
  have s1: "split CHR ''.'' (a1 @ ''.'' @ b1 @ ''.'' @ c1) = [a1, b1, c1]"
    using assms(1-3) by (rule split_triple)
  have s2: "split CHR ''.'' (a2 @ ''.'' @ b2 @ ''.'' @ c2) = [a2, b2, c2]"
    using assms(4-6) by (rule split_triple)
  show ?thesis
    unfolding compareVersions_def s1 s2 Let_def
    using assms by (simp only: list.map toNumber_digits compareLoop_numbers)
qed

lemma compareVersions_examples:
  "compareVersions ''2.30.0'' ''2.30.0'' = 0" "compareVersions ''2.9.0'' ''2.30.0'' = - 1"
  by (simp_all add: compareVersions_def toNumber_def trim_def isWhiteSpace_def isDigit_def
      decimalValue_def digitValue_def elementAt_def greaterThan_def lessThan_js_def)

text \<open>The matcher finds a version exactly in the banners that contain one.\<close>

lemma matchTriple_sound:
  assumes "matchTriple s = Some v"
  shows "isVersionTriple v \<and> (\<exists>post. s = v @ post)"
proof -
  define major where "major = takeWhile isDigit s"
  define r1 where "r1 = dropWhile isDigit s"
  from assms have m: "major \<noteq> []"
    by (auto simp: matchTriple_def major_def Let_def split: if_splits)
  from assms m obtain s2 where r1: "r1 = CHR ''.'' # s2"
    by (auto simp: matchTriple_def major_def r1_def Let_def split: if_splits list.splits)
  define minor where "minor = takeWhile isDigit s2"
  define r2 where "r2 = dropWhile isDigit s2"
  from assms m r1 have n: "minor \<noteq> []"
    by (auto simp: matchTriple_def major_def r1_def minor_def Let_def split: if_splits list.splits)
  from assms m r1 n obtain s3 where r2: "r2 = CHR ''.'' # s3"
    by (auto simp: matchTriple_def major_def r1_def minor_def r2_def Let_def
        split: if_splits list.splits)
  define patch where "patch = takeWhile isDigit s3"
  from assms m r1 n r2 have p: "patch \<noteq> []" and v: "v = major @ ''.'' @ minor @ ''.'' @ patch"
    by (auto simp: matchTriple_def major_def r1_def minor_def r2_def patch_def Let_def
        split: if_splits list.splits)
  have digs: "list_all isDigit major" "list_all isDigit minor" "list_all isDigit patch"
    by (auto simp: major_def minor_def patch_def list_all_iff dest: set_takeWhileD)
  have "s = major @ r1" by (simp add: major_def r1_def)
  also have "r1 = CHR ''.'' # (minor @ r2)" by (simp add: r1 minor_def r2_def)
  also have "r2 = CHR ''.'' # (patch @ dropWhile isDigit s3)" by (simp add: r2 patch_def)
  finally have "s = v @ dropWhile isDigit s3" by (simp add: v)
  moreover have "isVersionTriple v"
    unfolding isVersionTriple_def using m n p v digs by blast
  ultimately show ?thesis by blast
qed

lemma takeWhile_digits_dot:
  "list_all isDigit a \<Longrightarrow> takeWhile isDigit (a @ CHR ''.'' # rest) = a"
  by (simp add: takeWhile_tail isDigit_def list_all_iff)

lemma dropWhile_digits_dot:
  "list_all isDigit a \<Longrightarrow> dropWhile isDigit (a @ CHR ''.'' # rest) = CHR ''.'' # rest"
  by (simp add: dropWhile_append3 isDigit_def list_all_iff)

lemma matchTriple_complete:
  assumes "isVersionTriple v"
  shows "matchTriple (v @ post) \<noteq> None"
proof -
  from assms obtain a b c where v: "v = a @ ''.'' @ b @ ''.'' @ c"
    and ne: "a \<noteq> []" "b \<noteq> []" "c \<noteq> []"
    and d: "list_all isDigit a" "list_all isDigit b" "list_all isDigit c"
    by (auto simp: isVersionTriple_def)
  have s: "v @ post = a @ CHR ''.'' # (b @ CHR ''.'' # (c @ post))" by (simp add: v)
  have "takeWhile isDigit (c @ post) \<noteq> []"
    using ne(3) d(3) by (cases c) (auto simp: takeWhile_eq_Nil_iff)
  then show ?thesis
    unfolding s matchTriple_def
    using ne d by (simp add: takeWhile_digits_dot dropWhile_digits_dot Let_def)
qed

lemma matchHere_sound:
  assumes "matchHere s = Some v"
  shows "isVersionTriple v \<and> (\<exists>post. s = ''git version '' @ v @ post)"
proof -
  from assms have st: "startsWith s ''git version ''" and m: "matchTriple (drop 12 s) = Some v"
    by (auto simp: matchHere_def split: if_splits)
  from st have "take 12 s = ''git version ''" by (simp add: startsWith_def eval_nat_numeral)
  then have s: "s = ''git version '' @ drop 12 s"
    using append_take_drop_id[of 12 s] by simp
  from matchTriple_sound[OF m] obtain post where
    t: "isVersionTriple v" and p: "drop 12 s = v @ post" by blast
  from s p have "s = ''git version '' @ v @ post" by simp
  with t show ?thesis by blast
qed

lemma matchHere_complete:
  assumes "isVersionTriple v"
  shows "matchHere (''git version '' @ v @ post) \<noteq> None"
  using matchTriple_complete[OF assms, of post]
  by (simp add: matchHere_def startsWith_def eval_nat_numeral)

lemma matchGitVersion_sound:
  "matchGitVersion banner = Some v \<Longrightarrow>
   isVersionTriple v \<and> (\<exists>pre post. banner = pre @ ''git version '' @ v @ post)"
proof (induction banner)
  case Nil
  then show ?case by simp
next
  case (Cons c s)
  show ?case
  proof (cases "matchHere (c # s)")
    case None
    with Cons.prems have "matchGitVersion s = Some v" by simp
    from Cons.IH[OF this] obtain pre post where
      "isVersionTriple v" "s = pre @ ''git version '' @ v @ post" by blast
    then have "isVersionTriple v" "c # s = (c # pre) @ ''git version '' @ v @ post" by simp_all
    then show ?thesis by blast
  next
    case (Some u)
    with Cons.prems have "u = v" by simp
    with Some matchHere_sound[of "c # s" v] obtain post where
      "isVersionTriple v" "c # s = [] @ ''git version '' @ v @ post" by auto
    then show ?thesis by blast
  qed
qed

lemma matchGitVersion_complete:
  assumes "isVersionTriple v"
  shows "matchGitVersion (pre @ ''git version '' @ v @ post) \<noteq> None"
proof (induction pre)
  case Nil
  have "matchHere (''git version '' @ v @ post) \<noteq> None" by (rule matchHere_complete[OF assms])
  then show ?case by (auto simp: split: option.splits)
next
  case (Cons c pre)
  then show ?case by (auto split: option.splits)
qed

lemma matchGitVersion_iff: "(matchGitVersion banner \<noteq> None) = containsGitVersion banner"
proof
  assume "matchGitVersion banner \<noteq> None"
  then obtain v where "matchGitVersion banner = Some v" by blast
  from matchGitVersion_sound[OF this] show "containsGitVersion banner"
    unfolding containsGitVersion_def by blast
next
  assume "containsGitVersion banner"
  then obtain pre v post where "banner = pre @ ''git version '' @ v @ post" "isVersionTriple v"
    unfolding containsGitVersion_def by blast
  with matchGitVersion_complete[of v pre post] show "matchGitVersion banner \<noteq> None" by simp
qed

lemma validateGitVersion_value:
  "fst (validateGitVersion git minVersion w) =
     Returned (\<exists>banner v. git_raw git [''--version''] = Inr banner \<and>
                         matchGitVersion banner = Some v \<and>
                         0 \<le> compareVersions v minVersion)"
  by (cases "git_raw git [''--version'']")
     (auto simp: validateGitVersion_def io_defs split: option.splits)

lemma validateGitVersion_unparseable:
  "(\<forall>banner. git_raw git [''--version''] = Inr banner \<longrightarrow> \<not> containsGitVersion banner) \<longrightarrow>
   fst (validateGitVersion git minVersion w) = Returned False"
proof
  assume a: "\<forall>banner. git_raw git [''--version''] = Inr banner \<longrightarrow> \<not> containsGitVersion banner"
  have "\<not> (\<exists>banner v. git_raw git [''--version''] = Inr banner \<and>
                         matchGitVersion banner = Some v \<and>
                         0 \<le> compareVersions v minVersion)"
  proof
    assume "\<exists>banner v. git_raw git [''--version''] = Inr banner \<and>
                         matchGitVersion banner = Some v \<and>
                         0 \<le> compareVersions v minVersion"
    then obtain banner v where b: "git_raw git [''--version''] = Inr banner"
      and m: "matchGitVersion banner = Some v" by blast
    from m have "matchGitVersion banner \<noteq> None" by simp
    then have "containsGitVersion banner" by (simp only: matchGitVersion_iff)
    with a b show False by blast
  qed
  then show "fst (validateGitVersion git minVersion w) = Returned False"
    by (simp only: validateGitVersion_value)
qed

text \<open>
  C4. On versions of three decimal components (each below \<open>2 ^ 53\<close>)
  \<open>compareVersions\<close> is the left-to-right comparison of the components as integers,
  so \<open>2.30.0\<close> against \<open>2.30.0\<close> is 0 and \<open>2.9.0\<close> against \<open>2.30.0\<close> is negative.
  \<open>validateGitVersion\<close> returns true exactly when the tool answers, its banner holds
  a version triple after \<open>git version \<close>, and the matched triple compares at least
  equal to \<open>minVersion\<close>; it returns false when the tool fails or the banner holds no
  such triple.
\<close>

theorem version_check:
  "(list_all isDigit a1 \<and> list_all isDigit b1 \<and> list_all isDigit c1 \<and>
    list_all isDigit a2 \<and> list_all isDigit b2 \<and> list_all isDigit c2 \<and>
    list_all safeInteger (map decimalValue [a1, b1, c1, a2, b2, c2]) \<longrightarrow>
      compareVersions (a1 @ ''.'' @ b1 @ ''.'' @ c1) (a2 @ ''.'' @ b2 @ ''.'' @ c2) =
        ordinalCompare [decimalValue a1, decimalValue b1, decimalValue c1]
                       [decimalValue a2, decimalValue b2, decimalValue c2]) \<and>
   compareVersions ''2.30.0'' ''2.30.0'' = 0 \<and>
   compareVersions ''2.9.0'' ''2.30.0'' < 0 \<and>
   fst (validateGitVersion git minVersion w) =
     Returned (\<exists>banner v. git_raw git [''--version''] = Inr banner \<and>
                         matchGitVersion banner = Some v \<and>
                         0 \<le> compareVersions v minVersion) \<and>
   ((\<forall>b. git_raw git [''--version''] = Inr b \<longrightarrow> \<not> containsGitVersion b) \<longrightarrow>
      fst (validateGitVersion git minVersion w) = Returned False) \<and>
   (matchGitVersion banner \<noteq> None) = containsGitVersion banner \<and>
   (matchGitVersion banner = Some v \<longrightarrow>
      isVersionTriple v \<and> (\<exists>pre post. banner = pre @ ''git version '' @ v @ post))"
proof -
  have ex: "compareVersions ''2.30.0'' ''2.30.0'' = 0" "compareVersions ''2.9.0'' ''2.30.0'' < 0"
    by (simp_all add: compareVersions_examples)
  show ?thesis
    using compareVersions_triples[of a1 b1 c1 a2 b2 c2] ex
      validateGitVersion_value[of git minVersion w] matchGitVersion_iff[of banner]
      matchGitVersion_sound[of banner v] validateGitVersion_unparseable[of git minVersion w]
    by blast
qed

lemma matchGitVersion_example: "matchGitVersion ''git version 2.39.2\<newline>'' = Some ''2.39.2''"
  by (simp add: matchHere_def startsWith_def matchTriple_def isDigit_def Let_def)

theorem version_check_witness:
  "compareVersions ''2.9.0'' ''2.30.0'' = - 1 \<and>
   compareVersions ''2.31.4'' ''2.30.12'' = 1 \<and>
   fst (validateGitVersion healthyGit ''2.30.0'' emptyWorld) = Returned True \<and>
   fst (validateGitVersion brokenGit ''2.30.0'' emptyWorld) = Returned False \<and>
   containsGitVersion ''git version 2.39.2\<newline>''"
proof -
  have d: "list_all isDigit ''2''" "list_all isDigit ''9''" "list_all isDigit ''0''"
    "list_all isDigit ''30''" "list_all isDigit ''31''" "list_all isDigit ''4''"
    "list_all isDigit ''12''" "list_all isDigit ''39''"
    by (simp_all add: isDigit_def)
  have v: "decimalValue ''2'' = 2" "decimalValue ''9'' = 9" "decimalValue ''0'' = 0"
    "decimalValue ''30'' = 30" "decimalValue ''31'' = 31" "decimalValue ''4'' = 4"
    "decimalValue ''12'' = 12" "decimalValue ''39'' = 39"
    by (simp_all add: decimalValue_def digitValue_def)
  have c1: "compareVersions ''2.9.0'' ''2.30.0'' = - 1"
    using version_check[of "''2''" "''9''" "''0''" "''2''" "''30''" "''0''"] d
    by (simp add: v safeInteger_def)
  have c2: "compareVersions ''2.31.4'' ''2.30.12'' = 1"
    using version_check[of "''2''" "''31''" "''4''" "''2''" "''30''" "''12''"] d
    by (simp add: v safeInteger_def)
  have c3: "compareVersions ''2.39.2'' ''2.30.0'' = 1"
    using version_check[of "''2''" "''39''" "''2''" "''2''" "''30''" "''0''"] d
    by (simp add: v safeInteger_def)
  have r: "git_raw healthyGit [''--version''] = Inr ''git version 2.39.2\<newline>''"
    "git_raw brokenGit [''--version''] = Inl (Error ''spawn git ENOENT'')"
    by (simp_all add: healthyGit_def brokenGit_def)
  have c4: "fst (validateGitVersion healthyGit ''2.30.0'' emptyWorld) = Returned True"
    using version_check[where git=healthyGit and minVersion="''2.30.0''" and w=emptyWorld]
    by (simp add: r matchGitVersion_example c3 del: matchGitVersion.simps)
  have c5: "fst (validateGitVersion brokenGit ''2.30.0'' emptyWorld) = Returned False"
    using version_check[where git=brokenGit and minVersion="''2.30.0''" and w=emptyWorld]
    by (simp add: r)
  have c6: "containsGitVersion ''git version 2.39.2\<newline>''"
    using version_check[where banner="''git version 2.39.2\<newline>''"]
    by (simp add: matchGitVersion_example del: matchGitVersion.simps)
  from c1 c2 c4 c5 c6 show ?thesis by simp
qed

section \<open>Properties of the tree view\<close>

lemma listed_bareGit:
  "listed bareGit =
     [\<lparr>path = ''/repo'', branch = None, commit = None, isMain = True, isLocked = False,
       changes = None, activeCLIs = None\<rparr>,
      \<lparr>path = ''/repo-feature'', branch = Some ''refs/heads/feature'',
       commit = Some ''2222222222'', isMain = False, isLocked = False,
       changes = None, activeCLIs = None\<rparr>]"
  by (simp add: listed_def bareGit_def healthyGit_def parseWorktreeList_eq_blockRecords
      isWorktreeLine_def startsWith_def blockRecord_def)

lemma listWorktrees_bareGit:
  "listWorktrees bareGit w =
     (Returned (listed bareGit),
      w\<lparr>git_calls := git_calls w @ [Raw [''worktree'', ''list'', ''--porcelain'']]\<rparr>)"
  by (simp add: listWorktrees_result listed_def bareGit_def healthyGit_def)

lemma enrich_bare:
  "withChangesAndCLIs bareGit exampleTracker wt w =
     (Returned (wt\<lparr>changes := Some (statusCount bareGit (path wt)),
                   activeCLIs := Some (getActiveCLIs exampleTracker (path wt))\<rparr>), w)"
  by (simp add: withChangesAndCLIs_def getChangesCount_settled_result statusCount_def io_defs
      bareGit_def healthyGit_def)

text \<open>
  C8. The claim is that \<open>getChildren\<close> returns one enriched record per listed
  worktree, the main one first. The code does not for the listing of a bare repository:
  the parser yields two records, the first with \<open>isMain\<close> and without a commit;
  \<open>getChildren\<close> enriches and sorts them, then building the first tree item reads
  \<open>commit.substring\<close> of an undefined commit; the error is caught, shown, and the result
  is the empty list.
\<close>

theorem getChildren_bare_repository:
  "map path (listed bareGit) = [''/repo'', ''/repo-feature''] \<and>
   map isMain (listed bareGit) = [True, False] \<and>
   getChildren (answeringHost None) bareGit exampleTracker None [1, 0] emptyWorld =
     (Returned [],
      emptyWorld
        \<lparr>git_calls := [Raw [''worktree'', ''list'', ''--porcelain''],
                       Status ''/repo'', Status ''/repo-feature''],
         error_messages :=
           [''Failed to load worktrees: TypeError: Cannot read properties of undefined (reading 'substring')'']\<rparr>)"
proof -
  have "getChildren (answeringHost None) bareGit exampleTracker None [1, 0] emptyWorld =
     (Returned [],
      emptyWorld
        \<lparr>git_calls := [Raw [''worktree'', ''list'', ''--porcelain''],
                       Status ''/repo'', Status ''/repo-feature''],
         error_messages :=
           [''Failed to load worktrees: TypeError: Cannot read properties of undefined (reading 'substring')'']\<rparr>)"
    unfolding getChildren_def
    apply (simp add: await_def tryCatch_def listWorktrees_bareGit)
    apply (simp add: listed_bareGit promiseAll_def settleAt_def enrich_bare issueStatus_def)
    apply (simp add: arraySort_def compareWorktrees_def newWorktreeTreeItem_def buildTooltip_def
        await_def resolve_def showErrorMessage_def errorToString_def emptyWorld_def)
    done
  then show ?thesis by (simp add: listed_bareGit)
qed

text \<open>
  What \<open>getChildren\<close> does when every listed record has a commit: \<open>sort\<close> is a
  permutation, its result is ordered by the comparator when the comparator is a total
  preorder, and a main record comes first.
\<close>

lemma mset_insertBy: "mset (insertBy cmp x xs) = add_mset x (mset xs)"
  by (induction xs) auto

lemma mset_arraySort: "mset (arraySort cmp xs) = mset xs"
  by (induction xs) (auto simp: arraySort_def mset_insertBy)

lemma set_insertBy: "set (insertBy cmp x xs) = insert x (set xs)"
  using mset_insertBy[of cmp x xs, THEN arg_cong, of set_mset] by simp

lemma sorted_insertBy:
  assumes "totalPreorder cmp" "sorted_wrt (\<lambda>a b. cmp a b \<le> 0) xs"
  shows "sorted_wrt (\<lambda>a b. cmp a b \<le> 0) (insertBy cmp x xs)"
  using assms(2)
proof (induction xs)
  case Nil
  show ?case by simp
next
  case (Cons y ys)
  show ?case
  proof (cases "cmp x y \<le> 0")
    case True
    have "\<forall>z \<in> set ys. cmp x z \<le> 0"
    proof
      fix z assume "z \<in> set ys"
      with Cons.prems have "cmp y z \<le> 0" by simp
      with True assms(1) show "cmp x z \<le> 0" unfolding totalPreorder_def by blast
    qed
    with True Cons.prems show ?thesis by simp
  next
    case False
    with assms(1) have yx: "cmp y x \<le> 0" unfolding totalPreorder_def by blast
    from Cons have "sorted_wrt (\<lambda>a b. cmp a b \<le> 0) (insertBy cmp x ys)" by simp
    with False yx Cons.prems show ?thesis by (auto simp: set_insertBy)
  qed
qed

lemma sorted_arraySort:
  "totalPreorder cmp \<Longrightarrow> sorted_wrt (\<lambda>a b. cmp a b \<le> 0) (arraySort cmp xs)"
  by (induction xs) (auto simp: arraySort_def sorted_insertBy)

lemma totalPreorder_compareWorktrees:
  assumes "totalPreorder (localeCompare host)"
  shows "totalPreorder (compareWorktrees host)"
proof -
  from assms have tot: "\<And>x y. localeCompare host x y \<le> 0 \<or> localeCompare host y x \<le> 0"
    and trans: "\<And>x y z. localeCompare host x y \<le> 0 \<Longrightarrow> localeCompare host y z \<le> 0 \<Longrightarrow>
                  localeCompare host x z \<le> 0"
    unfolding totalPreorder_def by blast+
  have le: "\<And>a b. compareWorktrees host a b \<le> 0 \<longleftrightarrow>
              isMain a \<or> (\<not> isMain b \<and> localeCompare host (basename (path a)) (basename (path b)) \<le> 0)"
    by (simp add: compareWorktrees_def)
  show ?thesis
    unfolding totalPreorder_def le
  proof (intro conjI allI impI)
    fix a b
    show "(isMain a \<or> \<not> isMain b \<and> localeCompare host (basename (path a)) (basename (path b)) \<le> 0) \<or>
          (isMain b \<or> \<not> isMain a \<and> localeCompare host (basename (path b)) (basename (path a)) \<le> 0)"
      using tot[of "basename (path a)" "basename (path b)"] by blast
  next
    fix a b c
    assume h: "(isMain a \<or> \<not> isMain b \<and> localeCompare host (basename (path a)) (basename (path b)) \<le> 0) \<and>
          (isMain b \<or> \<not> isMain c \<and> localeCompare host (basename (path b)) (basename (path c)) \<le> 0)"
    show "isMain a \<or> \<not> isMain c \<and> localeCompare host (basename (path a)) (basename (path c)) \<le> 0"
    proof (cases "isMain a")
      case True
      then show ?thesis by simp
    next
      case False
      with h have 1: "\<not> isMain b" "localeCompare host (basename (path a)) (basename (path b)) \<le> 0"
        by simp_all
      with h have 2: "\<not> isMain c" "localeCompare host (basename (path b)) (basename (path c)) \<le> 0"
        by simp_all
      from trans[OF 1(2) 2(2)] 2(1) show ?thesis by simp
    qed
  qed
qed


lemma newWorktreeTreeItem_returns:
  "commit wt \<noteq> None \<Longrightarrow> newWorktreeTreeItem wt w = (Returned (itemOf wt), w)"
  by (auto simp: newWorktreeTreeItem_def itemOf_def buildTooltip_def)

lemma mapAwait_items:
  "\<forall>wt \<in> set xs. commit wt \<noteq> None \<Longrightarrow>
   mapAwait newWorktreeTreeItem xs w = (Returned (map itemOf xs), w)"
  by (induction xs) (simp_all add: resolve_def await_def newWorktreeTreeItem_returns)

lemma withChangesAndCLIs_returns:
  "\<forall>x w. \<exists>w'. withChangesAndCLIs git tracker x w = (Returned (enriched git tracker x), w')"
  by (simp add: withChangesAndCLIs_def enriched_def getChangesCount_settled_result
      statusCount_def io_defs split: sum.splits)

lemma getChildren_value:
  assumes commits: "\<forall>wt \<in> set (listed git). commit wt \<noteq> None"
      and settled: "\<forall>i<length (listed git). i \<in> set sched"
  shows "fst (getChildren host git tracker None sched w) =
           Returned (map itemOf (arraySort (compareWorktrees host)
                                   (map (enriched git tracker) (listed git))))"
proof -
  obtain w1 where l: "listWorktrees git w = (Returned (listed git), w1)"
    using listWorktrees_value[of git w] by (cases "listWorktrees git w") simp
  obtain w2 where p: "promiseAll (\<lambda>wt. issueStatus (path wt)) (withChangesAndCLIs git tracker)
              (listed git) sched w1 =
           (Returned (map (enriched git tracker) (listed git)), w2)"
    using promiseAll_value[where g="enriched git tracker"
          and continuation="withChangesAndCLIs git tracker"
          and start="\<lambda>wt. issueStatus (path wt)" and w=w1,
          OF withChangesAndCLIs_returns settled] by blast
  have "set (arraySort (compareWorktrees host) (map (enriched git tracker) (listed git))) =
        set (map (enriched git tracker) (listed git))"
    using mset_arraySort[of "compareWorktrees host" "map (enriched git tracker) (listed git)",
            THEN arg_cong, of set_mset] by simp
  with commits have
    "\<forall>wt \<in> set (arraySort (compareWorktrees host) (map (enriched git tracker) (listed git))).
       commit wt \<noteq> None"
    by (auto simp: enriched_def)
  then have m: "mapAwait newWorktreeTreeItem
           (arraySort (compareWorktrees host) (map (enriched git tracker) (listed git))) w2 =
         (Returned (map itemOf (arraySort (compareWorktrees host)
                                   (map (enriched git tracker) (listed git)))), w2)"
    by (rule mapAwait_items)
  show ?thesis
    by (simp add: getChildren_def await_def tryCatch_def l p m)
qed

lemma sorted_main_first:
  assumes "sorted_wrt (\<lambda>a b. compareWorktrees host a b \<le> 0) xs" "\<exists>x \<in> set xs. isMain x"
  shows "isMain (hd xs)"
proof (cases xs)
  case Nil
  with assms(2) show ?thesis by simp
next
  case (Cons y ys)
  show ?thesis
  proof (rule ccontr)
    assume n: "\<not> isMain (hd xs)"
    with Cons assms(2) obtain x where x: "x \<in> set ys" "isMain x" by auto
    with assms(1) Cons have "compareWorktrees host y x \<le> 0" by simp
    with n Cons x(2) show False by (simp add: compareWorktrees_def)
  qed
qed

lemma getChildren_sorted:
  assumes commits: "\<forall>wt \<in> set (listed git). commit wt \<noteq> None"
      and settled: "\<forall>i<length (listed git). i \<in> set sched"
      and order: "totalPreorder (localeCompare host)"
  shows "\<exists>items.
           fst (getChildren host git tracker None sched w) = Returned items \<and>
           mset (map worktree items) = mset (map (enriched git tracker) (listed git)) \<and>
           length items = length (listed git) \<and>
           sorted_wrt (\<lambda>a b. compareWorktrees host a b \<le> 0) (map worktree items) \<and>
           ((\<exists>wt \<in> set (listed git). isMain wt) \<longrightarrow> isMain (worktree (hd items)))"
proof -
  let ?sorted = "arraySort (compareWorktrees host) (map (enriched git tracker) (listed git))"
  have w: "map worktree (map itemOf ?sorted) = ?sorted"
    by (simp add: comp_def itemOf_def)
  have ms: "mset ?sorted = mset (map (enriched git tracker) (listed git))"
    by (rule mset_arraySort)
  have len: "length ?sorted = length (listed git)"
    using ms[THEN arg_cong, of size] by simp
  have so: "sorted_wrt (\<lambda>a b. compareWorktrees host a b \<le> 0) ?sorted"
    by (rule sorted_arraySort[OF totalPreorder_compareWorktrees[OF order]])
  have mainfirst: "(\<exists>wt \<in> set (listed git). isMain wt) \<longrightarrow> isMain (worktree (hd (map itemOf ?sorted)))"
  proof
    assume "\<exists>wt \<in> set (listed git). isMain wt"
    then have "\<exists>x \<in> set (map (enriched git tracker) (listed git)). isMain x"
      by (auto simp: enriched_def)
    then have ex: "\<exists>x \<in> set ?sorted. isMain x"
      using ms[THEN arg_cong, of set_mset] by simp
    then have "?sorted \<noteq> []" by auto
    then have "worktree (hd (map itemOf ?sorted)) = hd ?sorted"
      by (simp add: hd_map itemOf_def)
    with sorted_main_first[OF so ex] show "isMain (worktree (hd (map itemOf ?sorted)))" by simp
  qed
  show ?thesis
  proof (intro exI conjI)
    show "fst (getChildren host git tracker None sched w) = Returned (map itemOf ?sorted)"
      by (rule getChildren_value[OF commits settled])
    show "mset (map worktree (map itemOf ?sorted)) = mset (map (enriched git tracker) (listed git))"
      unfolding w by (rule ms)
    show "length (map itemOf ?sorted) = length (listed git)"
      using len by simp
    show "sorted_wrt (\<lambda>a b. compareWorktrees host a b \<le> 0) (map worktree (map itemOf ?sorted))"
      unfolding w by (rule so)
    show "(\<exists>wt \<in> set (listed git). isMain wt) \<longrightarrow> isMain (worktree (hd (map itemOf ?sorted)))"
      by (rule mainfirst)
  qed
qed

section \<open>Properties of removing the main worktree\<close>

lemma removeWorktree_isMain_unread:
  "removeWorktree host git (wt\<lparr>isMain := b\<rparr>) w = removeWorktree host git wt w"
  by (simp add: removeWorktree_def warningMessage_def hasChanges_def)

lemma listed_refusingGit: "listed refusingGit = listed bareGit"
  by (simp add: listed_def refusingGit_def)

lemma removeWorktree_confirmed_value:
  assumes "showWarningMessage host (warningMessage wt) = Some ''Remove''"
  shows "fst (removeWorktree host git wt w) =
           Returned (\<exists>out. git_raw git ([''worktree'', ''remove'']
                         @ (if hasChanges wt then [''--force''] else [])
                         @ [path wt]) = Inr out)"
proof (cases "git_raw git ([''worktree'', ''remove'']
                         @ (if hasChanges wt then [''--force''] else [])
                         @ [path wt])")
  case (Inl e)
  from removeWorktree_confirmed_failed[OF assms Inl, of w] Inl show ?thesis by simp
next
  case (Inr out)
  from removeWorktree_confirmed_ok[OF assms Inr, of w] Inr show ?thesis by simp
qed

lemma removeWorktree_confirmed_errors:
  assumes "showWarningMessage host (warningMessage wt) = Some ''Remove''"
  shows "error_messages (snd (removeWorktree host git wt w)) =
           error_messages w @
           (case git_raw git ([''worktree'', ''remove'']
                         @ (if hasChanges wt then [''--force''] else [])
                         @ [path wt]) of
              Inr out \<Rightarrow> []
            | Inl e \<Rightarrow> [''Failed to remove worktree: ''
                        @ orDefault (Some (getErrorMessage e)) ''Failed to remove worktree''])"
proof (cases "git_raw git ([''worktree'', ''remove'']
                         @ (if hasChanges wt then [''--force''] else [])
                         @ [path wt])")
  case (Inl e)
  from removeWorktree_confirmed_failed[OF assms Inl, of w] Inl show ?thesis by simp
next
  case (Inr out)
  from removeWorktree_confirmed_ok[OF assms Inr, of w] Inr show ?thesis by simp
qed

text \<open>
  C1. \<open>removeWorktree\<close> has no check of its own for the main worktree: it never reads
  \<open>isMain\<close>, so a record with \<open>isMain\<close> is treated as the same record without it.
  Unless the prompt answers \<open>Remove\<close> it returns false and leaves the world as it was,
  with no error shown. When the prompt answers \<open>Remove\<close>, the gateway's remove call is
  issued for the record's path, with \<open>--force\<close> exactly when the change count is
  positive, and the result is the tool's: false, with the tool's own error shown after
  \<open>Failed to remove worktree: \<close>, when the tool refuses, and true when it does not.
\<close>

theorem removeWorktree_leaves_main_to_git:
  "removeWorktree host git (wt\<lparr>isMain := True\<rparr>) w =
     removeWorktree host git (wt\<lparr>isMain := False\<rparr>) w \<and>
   (isMain wt \<and> showWarningMessage host (warningMessage wt) \<noteq> Some ''Remove'' \<longrightarrow>
      removeWorktree host git wt w = (Returned False, w)) \<and>
   (isMain wt \<and> showWarningMessage host (warningMessage wt) = Some ''Remove'' \<longrightarrow>
      git_calls (snd (removeWorktree host git wt w)) =
        git_calls w @ [Raw ([''worktree'', ''remove'']
                            @ (if \<exists>n. changes wt = Some n \<and> 0 < n then [''--force''] else [])
                            @ [path wt])] \<and>
      fst (removeWorktree host git wt w) =
        Returned (\<exists>out. git_raw git ([''worktree'', ''remove'']
                            @ (if \<exists>n. changes wt = Some n \<and> 0 < n then [''--force''] else [])
                            @ [path wt]) = Inr out) \<and>
      error_messages (snd (removeWorktree host git wt w)) =
        error_messages w @
        (case git_raw git ([''worktree'', ''remove'']
                            @ (if \<exists>n. changes wt = Some n \<and> 0 < n then [''--force''] else [])
                            @ [path wt]) of
           Inr out \<Rightarrow> []
         | Inl e \<Rightarrow> [''Failed to remove worktree: ''
                     @ orDefault (Some (getErrorMessage e)) ''Failed to remove worktree'']))"
  using removeWorktree_cancel[of host wt git w] removeWorktree_calls[of host wt git w]
    removeWorktree_confirmed_value[of host wt git w]
    removeWorktree_confirmed_errors[of host wt git w]
  by (simp add: hasChanges_iff removeWorktree_isMain_unread)

theorem removeWorktree_leaves_main_to_git_witness:
  "isMain (bareRepository\<lparr>changes := Some 2\<rparr>) \<and>
   removeWorktree (answeringHost (Some ''Cancel'')) refusingGit
       (bareRepository\<lparr>changes := Some 2\<rparr>) emptyWorld =
     (Returned False, emptyWorld) \<and>
   git_calls (snd (removeWorktree (answeringHost (Some ''Remove'')) refusingGit
                     (bareRepository\<lparr>changes := Some 2\<rparr>) emptyWorld)) =
     [Raw [''worktree'', ''remove'', ''--force'', ''/repo'']] \<and>
   fst (removeWorktree (answeringHost (Some ''Remove'')) refusingGit
          (bareRepository\<lparr>changes := Some 2\<rparr>) emptyWorld) = Returned False \<and>
   error_messages (snd (removeWorktree (answeringHost (Some ''Remove'')) refusingGit
                          (bareRepository\<lparr>changes := Some 2\<rparr>) emptyWorld)) =
     [''Failed to remove worktree: fatal: '/repo' is a main working tree'']"
proof -
  let ?wt = "bareRepository\<lparr>changes := Some 2\<rparr>"
  have m: "isMain ?wt"
    by (simp add: bareRepository_def)
  have c: "showWarningMessage (answeringHost (Some ''Cancel'')) (warningMessage ?wt)
             \<noteq> Some ''Remove''"
    by (simp add: answeringHost_def)
  have r: "showWarningMessage (answeringHost (Some ''Remove'')) (warningMessage ?wt)
             = Some ''Remove''"
    by (simp add: answeringHost_def)
  have g: "git_raw refusingGit [''worktree'', ''remove'', ''--force'', ''/repo''] =
             Inl (Error ''fatal: '/repo' is a main working tree'')"
    by (simp add: refusingGit_def)
  from removeWorktree_leaves_main_to_git
         [of "answeringHost (Some ''Cancel'')" refusingGit ?wt emptyWorld] m c
  have cancelled: "removeWorktree (answeringHost (Some ''Cancel'')) refusingGit ?wt emptyWorld =
                     (Returned False, emptyWorld)"
    by blast
  from removeWorktree_leaves_main_to_git
         [of "answeringHost (Some ''Remove'')" refusingGit ?wt emptyWorld,
          THEN conjunct2, THEN conjunct2] m r
  have "git_calls (snd (removeWorktree (answeringHost (Some ''Remove'')) refusingGit ?wt
                          emptyWorld)) =
          [Raw [''worktree'', ''remove'', ''--force'', ''/repo'']] \<and>
        fst (removeWorktree (answeringHost (Some ''Remove'')) refusingGit ?wt emptyWorld) =
          Returned False \<and>
        error_messages (snd (removeWorktree (answeringHost (Some ''Remove'')) refusingGit ?wt
                               emptyWorld)) =
          [''Failed to remove worktree: fatal: '/repo' is a main working tree'']"
    by (simp add: bareRepository_def g emptyWorld_def orDefault_def truthy_def
        getErrorMessage_def)
  with cancelled m show ?thesis by simp
qed

theorem removeWorktree_main_counterexample:
  "fst (getWorktrees refusingGit [0, 1] emptyWorld) = Returned [bareRepository, featureWorktree] \<and>
   isMain bareRepository \<and>
   removeWorktree (answeringHost (Some ''Remove'')) refusingGit bareRepository emptyWorld =
     (Returned False,
      emptyWorld\<lparr>git_calls := [Raw [''worktree'', ''remove'', ''/repo'']],
                 error_messages :=
                   [''Failed to remove worktree: fatal: '/repo' is a main working tree'']\<rparr>)"
proof -
  have "\<forall>i<length (listed refusingGit). i \<in> set [0, 1]"
    by (auto simp: listed_refusingGit listed_bareGit less_Suc_eq)
  moreover have "statusCount refusingGit ''/repo'' = 0"
    "statusCount refusingGit ''/repo-feature'' = 3"
    by (simp_all add: statusCount_def refusingGit_def bareGit_def healthyGit_def)
  ultimately have "fst (getWorktrees refusingGit [0, 1] emptyWorld) =
          Returned [bareRepository, featureWorktree]"
    using getWorktrees_value[of refusingGit "[0, 1]" emptyWorld]
    by (simp add: listed_refusingGit listed_bareGit bareRepository_def featureWorktree_def)
  moreover have "removeWorktree (answeringHost (Some ''Remove'')) refusingGit bareRepository
        emptyWorld =
     (Returned False,
      emptyWorld\<lparr>git_calls := [Raw [''worktree'', ''remove'', ''/repo'']],
                 error_messages :=
                   [''Failed to remove worktree: fatal: '/repo' is a main working tree'']\<rparr>)"
    by (simp add: removeWorktree_confirmed_failed
          [where e="Error ''fatal: '/repo' is a main working tree''"]
        answeringHost_def bareRepository_def refusingGit_def emptyWorld_def
        hasChanges_def orDefault_def truthy_def getErrorMessage_def)
  ultimately show ?thesis by (simp add: bareRepository_def)
qed

end
